theory Spec2Isabelle
  imports Complex_Main "HOL-Library.Sublist"
begin

section \<open>Paths and the output stage\<close>

text \<open>
  A token is a string.  A Maya DAG path is the list of node names from the world root
  down (\<open>|a|b\<close> is \<open>[''a'', ''b'']\<close>, the world root is \<open>[]\<close>).  An \<open>SdfPath\<close> is
  either the empty path (\<open>None\<close>) or an absolute prim path (\<open>Some [''a'', ''b'']\<close> is
  \<open>/a/b\<close>, \<open>Some []\<close> is the absolute root \<open>/\<close>).
\<close>

type_synonym TfToken = string
type_synonym MDagPath = "string list"
type_synonym SdfPath = "string list option"

definition IsEmpty :: "SdfPath \<Rightarrow> bool" where
  "IsEmpty p = (p = None)"

definition GetParentPath :: "SdfPath \<Rightarrow> SdfPath" where
  "GetParentPath p = (case p of None \<Rightarrow> None | Some [] \<Rightarrow> None | Some xs \<Rightarrow> Some (butlast xs))"

definition GetName :: "SdfPath \<Rightarrow> string" where
  "GetName p = (case p of None \<Rightarrow> [] | Some [] \<Rightarrow> ''/'' | Some xs \<Rightarrow> last xs)"

definition HasPrefix :: "SdfPath \<Rightarrow> SdfPath \<Rightarrow> bool" where
  "HasPrefix p q = (case (p, q) of (Some a, Some b) \<Rightarrow> prefix b a | _ \<Rightarrow> False)"

definition GetPrefixes :: "SdfPath \<Rightarrow> SdfPath list" where
  "GetPrefixes p = (case p of None \<Rightarrow> [] | Some xs \<Rightarrow> map (\<lambda>i. Some (take i xs)) [1 ..< Suc (length xs)])"

definition ReplacePrefix :: "SdfPath \<Rightarrow> SdfPath \<Rightarrow> SdfPath \<Rightarrow> SdfPath" where
  "ReplacePrefix p old new =
     (case (p, old, new) of
        (Some a, Some b, Some c) \<Rightarrow> if prefix b a then Some (c @ drop (length b) a) else p
      | _ \<Rightarrow> p)"

text \<open>
  Parsing a string into a path.  Only what the job builds is covered: the empty string
  and absolute prim paths \<open>/a/b\<close>; anything else is the empty path.
\<close>

fun splitOn :: "char \<Rightarrow> string \<Rightarrow> string list" where
  "splitOn c [] = [[]]"
| "splitOn c (x # xs) =
     (if x = c then [] # splitOn c xs
      else (case splitOn c xs of [] \<Rightarrow> [[x]] | w # ws \<Rightarrow> (x # w) # ws))"

definition SdfPath_of_string :: "string \<Rightarrow> SdfPath" where
  "SdfPath_of_string s =
     (case s of
        [] \<Rightarrow> None
      | c # rest \<Rightarrow>
          if c \<noteq> CHR ''/'' then None
          else if rest = [] then Some []
          else (let comps = splitOn (CHR ''/'') rest
                in if [] \<in> set comps then None else Some comps))"

text \<open>
  The stage is the population of prims below the pseudo-root, in the order a traversal
  visits them.  Of a prim are kept its type name, whether payloads are authored, the
  authored references and the variant sets.  A \<open>UsdPrim\<close> handle is the path of the prim;
  the invalid handle is the empty path, and looking up a path with no prim gives the
  invalid handle.  The default traversal is modelled as visiting every prim of the
  population.
\<close>

record VariantSet =
  variants :: "(string \<times> SdfPath list) list"
  selection :: string

record UsdPrimData =
  typeName :: TfToken
  hasPayloads :: bool
  references :: "SdfPath list"
  variantSets :: "(string \<times> VariantSet) list"

record UsdStage =
  prims :: "(SdfPath \<times> UsdPrimData) list"
  activation :: "(SdfPath \<times> bool) list"

type_synonym UsdPrim = SdfPath

definition primAt :: "UsdStage \<Rightarrow> SdfPath \<Rightarrow> UsdPrimData option" where
  "primAt st p = (case p of Some (x # xs) \<Rightarrow> map_of (prims st) p | _ \<Rightarrow> None)"

definition IsValid :: "UsdPrim \<Rightarrow> bool" where
  "IsValid prim = (prim \<noteq> None)"

definition GetPrimAtPath :: "UsdStage \<Rightarrow> SdfPath \<Rightarrow> UsdPrim" where
  "GetPrimAtPath st p = (if p = Some [] \<or> primAt st p \<noteq> None then p else None)"

definition GetTypeName :: "UsdStage \<Rightarrow> UsdPrim \<Rightarrow> TfToken" where
  "GetTypeName st prim = (case primAt st prim of Some d \<Rightarrow> typeName d | None \<Rightarrow> [])"

definition GetAllChildren :: "UsdStage \<Rightarrow> UsdPrim \<Rightarrow> UsdPrim list" where
  "GetAllChildren st prim =
     filter (\<lambda>q. primAt st q \<noteq> None \<and> GetParentPath q = prim) (map fst (prims st))"

definition HasAuthoredPayloads :: "UsdStage \<Rightarrow> UsdPrim \<Rightarrow> bool" where
  "HasAuthoredPayloads st prim = (case primAt st prim of Some d \<Rightarrow> hasPayloads d | None \<Rightarrow> False)"

definition HasAuthoredReferences :: "UsdStage \<Rightarrow> UsdPrim \<Rightarrow> bool" where
  "HasAuthoredReferences st prim =
     (case primAt st prim of Some d \<Rightarrow> references d \<noteq> [] | None \<Rightarrow> False)"

definition Traverse :: "UsdStage \<Rightarrow> UsdPrim list" where
  "Traverse st = filter (\<lambda>q. primAt st q \<noteq> None) (map fst (prims st))"

text \<open>
  \<open>RemovePrim\<close> removes what is at the path and everything below it; the pseudo-root and
  the empty path cannot be removed.
\<close>

definition RemovePrim :: "UsdStage \<Rightarrow> SdfPath \<Rightarrow> UsdStage" where
  "RemovePrim st path =
     (case path of
        Some (x # xs) \<Rightarrow> st\<lparr>prims := filter (\<lambda>(q, d). \<not> HasPrefix q path) (prims st)\<rparr>
      | _ \<Rightarrow> st)"

section \<open>Pruning empty containers\<close>

definition emptyTypes :: "TfToken set" where
  "emptyTypes = {''Xform'', ''Scope''}"

definition isEmptyPrim :: "UsdStage \<Rightarrow> UsdPrim \<Rightarrow> bool" where
  "isEmptyPrim st prim =
     (if \<not> IsValid prim then False
      else if GetTypeName st prim \<notin> emptyTypes then False
      else if GetAllChildren st prim \<noteq> [] then False
      else if HasAuthoredPayloads st prim then False
      else if HasAuthoredReferences st prim then False
      else True)"

definition isEmptyPrimAt :: "UsdStage \<Rightarrow> SdfPath \<Rightarrow> bool" where
  "isEmptyPrimAt st path = isEmptyPrim st (GetPrimAtPath st path)"

fun removeEmptyPrims :: "UsdStage \<Rightarrow> SdfPath list \<Rightarrow> UsdStage \<times> SdfPath list" where
  "removeEmptyPrims st [] = (st, [])"
| "removeEmptyPrims st (path # rest) =
     (case removeEmptyPrims (RemovePrim st path) rest of
        (st', toRecheck) \<Rightarrow> (st', GetParentPath path # toRecheck))"

definition pathDepth :: "SdfPath \<Rightarrow> nat" where
  "pathDepth p = (case p of None \<Rightarrow> 1 | Some xs \<Rightarrow> 2 + length xs)"

function pruneLoop :: "SdfPath \<Rightarrow> UsdStage \<Rightarrow> SdfPath list \<Rightarrow> UsdStage" where
  "pruneLoop defaultPrimPath st toRemove =
     (if toRemove = [] then st
      else (case removeEmptyPrims st toRemove of
              (st', toRecheck) \<Rightarrow>
                pruneLoop defaultPrimPath st'
                  [path \<leftarrow> toRecheck. defaultPrimPath \<noteq> path \<and> isEmptyPrimAt st' path]))"
  by pat_completeness auto
termination
proof (relation "measure (\<lambda>(d, st, ps). sum_list (map pathDepth ps))", goal_cases)
  case 1
  show ?case by simp
next
  case (2 d st ps st' rs)
  have parents: "snd (removeEmptyPrims s qs) = map GetParentPath qs" for s qs
  proof (induction qs arbitrary: s)
    case Nil
    then show ?case by simp
  next
    case (Cons a qs)
    from Cons [of "RemovePrim s a"] show ?case
      by (cases "removeEmptyPrims (RemovePrim s a) qs") simp
  qed
  have nonroot: "\<exists>x xs. p = Some (x # xs)" if "isEmptyPrimAt s p" for s p
    using that
    by (auto simp: isEmptyPrimAt_def isEmptyPrim_def GetPrimAtPath_def IsValid_def
          GetTypeName_def primAt_def emptyTypes_def split: if_splits option.splits list.splits)
  have depth: "sum_list (map pathDepth [p \<leftarrow> map GetParentPath qs. d \<noteq> p \<and> isEmptyPrimAt st' p])
                 + length qs \<le> sum_list (map pathDepth qs)" for qs
  proof (induction qs)
    case Nil
    then show ?case by simp
  next
    case (Cons a qs)
    have one: "1 \<le> pathDepth a"
      by (simp add: pathDepth_def split: option.splits)
    have dec: "pathDepth (GetParentPath a) + 1 \<le> pathDepth a" if "isEmptyPrimAt st' (GetParentPath a)"
      using nonroot [OF that]
      by (auto simp: GetParentPath_def pathDepth_def split: option.splits list.splits)
    from Cons one dec show ?case by auto
  qed
  from 2 have rs: "rs = map GetParentPath ps"
    using parents [of st ps] by (metis snd_conv)
  from 2 have len: "0 < length ps" by simp
  with depth [of ps]
  have "sum_list (map pathDepth [p \<leftarrow> map GetParentPath ps. d \<noteq> p \<and> isEmptyPrimAt st' p])
          < sum_list (map pathDepth ps)"
    by linarith
  then show ?case
    unfolding rs by simp
qed

declare pruneLoop.simps [simp del]

section \<open>The export job: arguments, collaborators and state\<close>

text \<open>
  The tokens the job compares against (translator tokens and job-argument tokens).
\<close>

definition UsdFileExtensionDefault :: TfToken where "UsdFileExtensionDefault = ''usd''"
definition UsdFileExtensionASCII :: TfToken where "UsdFileExtensionASCII = ''usda''"
definition UsdFileExtensionCrate :: TfToken where "UsdFileExtensionCrate = ''usdc''"
definition UsdFileExtensionPackage :: TfToken where "UsdFileExtensionPackage = ''usdz''"
definition appleArKit :: TfToken where "appleArKit = ''appleArKit''"
definition modelingVariant :: TfToken where "modelingVariant = ''modelingVariant''"
definition currentLayer :: TfToken where "currentLayer = ''currentLayer''"

record JobArgs =
  timeSamples :: "real list"
  verbose :: bool
  rootPrim :: SdfPath
  exportRoots :: "string list"
  exportSelected :: bool
  isExportingMeshes :: bool
  isExportingLights :: bool
  isExportingCameras :: bool
  exportStagesAsRefs :: bool
  legacyMaterialScope :: bool
  defaultPrim :: string
  stripNamespaces :: bool
  mergeTransformAndShape :: bool
  dagPaths :: "MDagPath list"
  compatibility :: TfToken
  renderLayerMode :: TfToken
  rootMapFunctionIsNull :: bool
  usdModelRootOverridePath :: SdfPath
  upAxis :: TfToken
  unit :: TfToken
  customLayerData :: "(string \<times> string) list"
  chaserNames :: "string list"
  metersPerUnit :: real
  exportDistanceUnit :: bool
  includeEmptyTransforms :: bool
  melPerFrameCallback :: string
  pythonPerFrameCallback :: string
  melPostCallback :: string
  pythonPostCallback :: string

text \<open>
  A prim writer, as far as the job uses it: the node it writes, its prim handle (the
  empty path is the invalid handle), whether it asks for its children to be pruned, and
  its contribution to the path mapping.  A chaser with its three hooks; a render layer
  with its name and members.
\<close>

record PrimWriter =
  GetDagPath :: MDagPath
  GetUsdPrim :: UsdPrim
  ShouldPruneChildren :: bool
  GetDagToUsdPathMapping :: "(MDagPath \<times> SdfPath) list"

record Chaser =
  chaserName :: string
  ExportDefault :: bool
  ExportFrame :: "real \<Rightarrow> bool"
  PostExport :: bool
  GetExtraPrimsPaths :: "SdfPath list"

record RenderLayer =
  layerName :: string
  listMembers :: "MDagPath list"

datatype MDag = MDag (nodeName: string) (childNodes: "MDag list")

datatype Error =
    RootOverlap MDagPath MDagPath
  | CannotAppendToPackage
  | TemporaryStageExists string
  | ExportRootsWithModelingVariant
  | OpenFileFailed string
  | NameClash MDagPath MDagPath
  | ExportRootNoIntersection
  | PostProcessFailed
  | MakeModelHierarchyFailed
  | FailedToCreateChaser string
  | ChaserExportDefaultFailed string
  | ChaserExportFrameFailed string
  | ChaserPostExportFailed string
  | CouldNotCreatePackage string string
  | DistanceUnitWarning
  | NoStage
  | NoFirstPrimWriter
  | NoPathPrefix

text \<open>
  Every call the job makes on a collaborator or on the outside world is recorded, in
  order, as an event.
\<close>

datatype Event =
    ViewFrame real
  | OpenFile string bool
  | SetStartTimeCode real
  | SetEndTimeCode real
  | SetTimeCodesPerSecond
  | SetFramesPerSecond
  | ChangeUpAxisAndUnits TfToken TfToken
  | RestoreUpAxisAndUnits
  | SetCustomLayerData
  | SetCurrentRenderLayer string
  | CreatePrimWriter MDagPath
  | PrimWriterWrite MDagPath "real option"
  | OnWritePrim MDagPath
  | PrimWriterPostExport MDagPath
  | ExportShadingEngines
  | PostProcess
  | MakeModelHierarchy
  | ChaserExportDefault string
  | ChaserExportFrame string real
  | ChaserPostExport string
  | MelCommand string
  | PythonCommand string
  | SetStageMetersPerUnit real
  | SetDefaultPrim TfToken
  | Save string
  | CreateNewARKitUsdzPackage string string string
  | CreateNewUsdzPackage string string string
  | ReleaseStage
  | ClearPrimWriters
  | DeleteFile string
  | Report Error

text \<open>
  What the job asks of Maya, of the USD library and of its own context (file opening,
  writer and chaser creation, post-processing) is a parameter of the model: the answer of
  each collaborator.  \<open>isInterruptRequested n\<close> is the state of the interrupt flag when it
  is polled after the \<open>n\<close>-th frame.  \<open>authoringEffect\<close> is what a collaborator's call does
  to the prim population of the stage.
\<close>

record Env =
  executePythonCommand :: "string \<Rightarrow> string list"
  MayaNodeNameToPrimName :: "string \<Rightarrow> bool \<Rightarrow> string"
  TfGetExtension :: "string \<Rightarrow> string"
  TfGetPathName :: "string \<Rightarrow> string"
  TfGetBaseName :: "string \<Rightarrow> string"
  TfStringGetBeforeSuffix :: "string \<Rightarrow> string"
  TfStringCatPaths :: "string \<Rightarrow> string \<Rightarrow> string"
  uuidString :: string
  openFileResult :: "string \<Rightarrow> bool \<Rightarrow> UsdStage option"
  listAllRenderLayers :: "RenderLayer list"
  defaultRenderLayer :: RenderLayer
  dagPathIsValid :: "MDagPath \<Rightarrow> bool"
  dagWorld :: MDag
  NeedToTraverse :: "MDagPath \<Rightarrow> bool"
  createPrimWriterResult :: "MDagPath \<Rightarrow> PrimWriter option"
  extendToShape :: "MDagPath \<Rightarrow> MDagPath"
  postProcessResult :: bool
  makeModelHierarchyResult :: bool
  chaserRegistryCreate :: "string \<Rightarrow> Chaser option"
  isInterruptRequested :: "nat \<Rightarrow> bool"
  PermissionToSave :: bool
  createPackageResult :: bool
  mayaInternalUnitLinear :: real
  IsAXformable :: "TfToken \<Rightarrow> bool"
  authoringEffect :: "Event \<Rightarrow> UsdStage \<Rightarrow> UsdStage"

text \<open>
  The state of the job (the members of \<open>UsdMaya_WriteJob\<close> and of its context), together
  with the part of the outside world it acts on: the files that exist, Maya's current
  render layer and current time, and the record of calls made so far.
\<close>

record Job =
  mArgs :: JobArgs
  mStage :: "UsdStage option"
  mRootPrimPath :: SdfPath
  mMayaPrimWriterList :: "PrimWriter list"
  mChasers :: "Chaser list"
  mDagPathToUsdPathMap :: "(MDagPath \<times> SdfPath) list"
  mUsdPathToDagPathMap :: "(SdfPath \<times> MDagPath) list"
  mRenderLayerObjs :: "RenderLayer list"
  mCurrentRenderLayerName :: string
  mFileName :: string
  mPackageName :: string
  mExtrasPrimsPaths :: "SdfPath list"
  autoAxisAndUnitsChanger :: bool
  files :: "string list"
  sceneRenderLayer :: string
  sceneTime :: real
  trace :: "Event list"

type_synonym 'a Result = "(Error \<times> Job) + 'a"

definition andThen :: "'a Result \<Rightarrow> ('a \<Rightarrow> 'b Result) \<Rightarrow> 'b Result" where
  "andThen m f = (case m of Inl e \<Rightarrow> Inl e | Inr x \<Rightarrow> f x)"

definition succeeded :: "'a Result \<Rightarrow> bool" where
  "succeeded r = (case r of Inl e \<Rightarrow> False | Inr x \<Rightarrow> True)"

definition logEvent :: "Event \<Rightarrow> Job \<Rightarrow> Job" where
  "logEvent e j = j\<lparr>trace := trace j @ [e]\<rparr>"

definition callExt :: "Env \<Rightarrow> Event \<Rightarrow> Job \<Rightarrow> Job" where
  "callExt env e j =
     j\<lparr>mStage := map_option (authoringEffect env e) (mStage j), trace := trace j @ [e]\<rparr>"

definition viewFrame :: "real \<Rightarrow> Job \<Rightarrow> Job" where
  "viewFrame t j = j\<lparr>sceneTime := t, trace := trace j @ [ViewFrame t]\<rparr>"

definition setCurrentRenderLayer :: "string \<Rightarrow> Job \<Rightarrow> Job" where
  "setCurrentRenderLayer n j =
     j\<lparr>sceneRenderLayer := n, trace := trace j @ [SetCurrentRenderLayer n]\<rparr>"

section \<open>Beginning the write\<close>

definition MakeTmpStageName :: "Env \<Rightarrow> string \<Rightarrow> string" where
  "MakeTmpStageName env dir =
     TfStringCatPaths env dir (''tmp-'' @ uuidString env @ ''.'' @ UsdFileExtensionCrate)"

definition GetFallbackExtension :: "TfToken \<Rightarrow> TfToken" where
  "GetFallbackExtension compatibilityMode =
     (if compatibilityMode = appleArKit then UsdFileExtensionPackage
      else UsdFileExtensionDefault)"

definition pyBool :: "bool \<Rightarrow> string" where
  "pyBool b = (if b then ''True'' else ''False'')"

definition candidatesCommand :: "JobArgs \<Rightarrow> string" where
  "candidatesCommand exportArgs =
     ''import mayaUsd_exportHelpers; mayaUsd_exportHelpers.''
     @ (if exportSelected exportArgs then ''updateDefaultPrimCandidatesFromSelection''
        else ''updateDefaultPrimCandidates'')
     @ ''('' @ pyBool (\<not> isExportingMeshes exportArgs)
     @ '', '' @ pyBool (\<not> isExportingLights exportArgs)
     @ '', '' @ pyBool (\<not> isExportingCameras exportArgs)
     @ '', '' @ pyBool (\<not> exportStagesAsRefs exportArgs) @ '')''"

definition GetExportDefaultPrimCandidates :: "Env \<Rightarrow> JobArgs \<Rightarrow> string list" where
  "GetExportDefaultPrimCandidates env exportArgs =
     (if \<not> IsEmpty (rootPrim exportArgs) then [GetName (rootPrim exportArgs)]
      else (let roots = (if exportRoots exportArgs \<noteq> []
                         then [root \<leftarrow> exportRoots exportArgs. root \<noteq> []] else [])
            in if exportRoots exportArgs \<noteq> [] \<and> roots \<noteq> [] then roots
               else executePythonCommand env (candidatesCommand exportArgs)))"

definition chooseDefaultPrim :: "Env \<Rightarrow> Job \<Rightarrow> Job" where
  "chooseDefaultPrim env j =
     (if \<not> legacyMaterialScope (mArgs j) then
        (if defaultPrim (mArgs j) = [] then
           (case GetExportDefaultPrimCandidates env (mArgs j) of
              [] \<Rightarrow> j
            | r # rs \<Rightarrow> j\<lparr>mArgs := (mArgs j)\<lparr>defaultPrim := r\<rparr>\<rparr>)
         else j)
      else j)"

definition normalizeDefaultPrim :: "Env \<Rightarrow> Job \<Rightarrow> Job" where
  "normalizeDefaultPrim env j =
     (if defaultPrim (mArgs j) \<noteq> [] then
        j\<lparr>mArgs := (mArgs j)\<lparr>defaultPrim :=
             MayaNodeNameToPrimName env (defaultPrim (mArgs j)) (stripNamespaces (mArgs j))\<rparr>\<rparr>
      else j)"

text \<open>
  Modelled from the spec: \<open>UsdMayaUtil::isAncestorDescendentRelationship\<close> is not among
  the sources; the spec calls it the ancestor/descendant test of two nodes, which on DAG
  paths is that one path is an initial segment of the other.
\<close>

definition isAncestorDescendentRelationship :: "MDagPath \<Rightarrow> MDagPath \<Rightarrow> bool" where
  "isAncestorDescendentRelationship path1 path2 = (prefix path1 path2 \<or> prefix path2 path1)"

fun overlapWith :: "MDagPath \<Rightarrow> MDagPath list \<Rightarrow> (MDagPath \<times> MDagPath) option" where
  "overlapWith path1 [] = None"
| "overlapWith path1 (path2 # rest) =
     (if isAncestorDescendentRelationship path1 path2 then Some (path1, path2)
      else overlapWith path1 rest)"

fun findOverlap :: "MDagPath list \<Rightarrow> (MDagPath \<times> MDagPath) option" where
  "findOverlap [] = None"
| "findOverlap (path1 # rest) =
     (case overlapWith path1 rest of
        Some found \<Rightarrow> Some found
      | None \<Rightarrow> findOverlap rest)"

definition checkRootOverlap :: "Job \<Rightarrow> Job Result" where
  "checkRootOverlap j =
     (case findOverlap (dagPaths (mArgs j)) of
        Some (path1, path2) \<Rightarrow> Inl (RootOverlap path1 path2, j)
      | None \<Rightarrow> Inr j)"

text \<open>
  An anonymous layer identifier is one that starts with \<open>anon:\<close>.
\<close>

definition IsAnonymousLayerIdentifier :: "string \<Rightarrow> bool" where
  "IsAnonymousLayerIdentifier identifier = prefix ''anon:'' identifier"

definition resolveFileName :: "Env \<Rightarrow> JobArgs \<Rightarrow> string \<Rightarrow> TfToken \<times> string" where
  "resolveFileName env args fileName =
     (let fileExt = TfGetExtension env fileName
      in if \<not> (IsAnonymousLayerIdentifier fileName
                 \<or> fileExt = UsdFileExtensionDefault
                 \<or> fileExt = UsdFileExtensionASCII
                 \<or> fileExt = UsdFileExtensionCrate
                 \<or> fileExt = UsdFileExtensionPackage)
         then (let fallback = GetFallbackExtension (compatibility args)
               in (fallback, fileName @ ''.'' @ fallback))
         else (fileExt, fileName))"

definition setupFileStructure :: "Env \<Rightarrow> bool \<Rightarrow> TfToken \<times> string \<Rightarrow> Job \<Rightarrow> Job Result" where
  "setupFileStructure env appendFlag resolved j =
     (case resolved of (fileExt, fileNameWithExt) \<Rightarrow>
        if fileExt = UsdFileExtensionPackage then
          (if appendFlag then Inl (CannotAppendToPackage, j)
           else (let j1 = j\<lparr>mFileName := MakeTmpStageName env (TfGetPathName env fileNameWithExt)\<rparr>
                 in if mFileName j1 \<in> set (files j1)
                    then Inl (TemporaryStageExists (mFileName j1), j1)
                    else Inr (j1\<lparr>mPackageName := fileNameWithExt\<rparr>)))
        else Inr (j\<lparr>mFileName := fileNameWithExt, mPackageName := []\<rparr>))"

definition setupModelingVariant :: "Env \<Rightarrow> Job \<Rightarrow> Job Result" where
  "setupModelingVariant env j =
     (if renderLayerMode (mArgs j) = modelingVariant then
        (let j1 = j\<lparr>mRenderLayerObjs := listAllRenderLayers env\<rparr>
         in if length (mRenderLayerObjs j1) > 1 then
              (if \<not> rootMapFunctionIsNull (mArgs j1)
               then Inl (ExportRootsWithModelingVariant, j1)
               else Inr (j1\<lparr>mArgs := (mArgs j1)\<lparr>usdModelRootOverridePath :=
                                SdfPath_of_string ''/_BaseModel_''\<rparr>\<rparr>))
            else Inr j1)
      else Inr j)"

definition openFile :: "Env \<Rightarrow> bool \<Rightarrow> Job \<Rightarrow> Job Result" where
  "openFile env appendFlag j =
     (let j1 = logEvent (OpenFile (mFileName j) appendFlag) j
      in case openFileResult env (mFileName j) appendFlag of
           None \<Rightarrow> Inl (OpenFileFailed (mFileName j), j1)
         | Some st \<Rightarrow> Inr (j1\<lparr>mStage := Some st\<rparr>))"

definition setupStage :: "Env \<Rightarrow> Job \<Rightarrow> Job" where
  "setupStage env j =
     (let j1 = (case timeSamples (mArgs j) of
                  [] \<Rightarrow> j
                | t # ts \<Rightarrow>
                    logEvent SetFramesPerSecond (logEvent SetTimeCodesPerSecond
                      (logEvent (SetEndTimeCode (last (t # ts)))
                        (logEvent (SetStartTimeCode t) j))));
          j2 = (logEvent (ChangeUpAxisAndUnits (upAxis (mArgs j1)) (unit (mArgs j1))) j1)
                 \<lparr>autoAxisAndUnitsChanger := True\<rparr>;
          j3 = (if customLayerData (mArgs j2) \<noteq> [] then logEvent SetCustomLayerData j2 else j2);
          j4 = j3\<lparr>mCurrentRenderLayerName := sceneRenderLayer j3\<rparr>
      in if renderLayerMode (mArgs j4) \<noteq> currentLayer
            \<and> sceneRenderLayer j4 \<noteq> layerName (defaultRenderLayer env)
         then setCurrentRenderLayer (layerName (defaultRenderLayer env)) j4
         else j4)"

text \<open>
  The two sets built from the configured roots: the valid roots themselves, and their
  ancestors up to the world root.  Climbing from a root stops at an invalid path, at a
  path already recorded, and at the world root (which cannot be popped).
\<close>

fun climbParents :: "Env \<Rightarrow> MDagPath \<Rightarrow> MDagPath list \<Rightarrow> MDagPath list" where
  "climbParents env curDagPath argDagPathParents =
     (if \<not> dagPathIsValid env curDagPath then argDagPathParents
      else if curDagPath \<in> set argDagPathParents then argDagPathParents
      else if curDagPath = [] then curDagPath # argDagPathParents
      else climbParents env (butlast curDagPath) (curDagPath # argDagPathParents))"

declare climbParents.simps [simp del]

fun collectArgDagPaths ::
  "Env \<Rightarrow> MDagPath list \<Rightarrow> MDagPath list \<times> MDagPath list \<Rightarrow> MDagPath list \<times> MDagPath list" where
  "collectArgDagPaths env [] sets = sets"
| "collectArgDagPaths env (curDagPath # rest) (argDagPaths, argDagPathParents) =
     (if \<not> dagPathIsValid env curDagPath
      then collectArgDagPaths env rest (argDagPaths, argDagPathParents)
      else if curDagPath = []
      then collectArgDagPaths env rest (curDagPath # argDagPaths, argDagPathParents)
      else collectArgDagPaths env rest
             (curDagPath # argDagPaths, climbParents env (butlast curDagPath) argDagPathParents))"

section \<open>Name clashes\<close>

definition CheckNameClashes :: "Env \<Rightarrow> SdfPath \<Rightarrow> MDagPath \<Rightarrow> Job \<Rightarrow> Job Result" where
  "CheckNameClashes env path dagPath j =
     (if \<not> stripNamespaces (mArgs j) then Inr j
      else (case map_of (mUsdPathToDagPathMap j) path of
              Some other \<Rightarrow>
                if mergeTransformAndShape (mArgs j)
                   \<and> extendToShape env other = extendToShape env dagPath
                then Inr j
                else Inl (NameClash other dagPath, j)
            | None \<Rightarrow> Inr (j\<lparr>mUsdPathToDagPathMap := mUsdPathToDagPathMap j @ [(path, dagPath)]\<rparr>)))"

section \<open>The traversal of the Maya DAG\<close>

definition hasParent :: "MDagPath \<Rightarrow> MDagPath option \<Rightarrow> bool" where
  "hasParent curDagPath curLeafDagPath =
     (case curLeafDagPath of
        None \<Rightarrow> False
      | Some leaf \<Rightarrow> curDagPath \<noteq> [] \<and> butlast curDagPath = leaf)"

fun insertMapping :: "(MDagPath \<times> SdfPath) list \<Rightarrow> (MDagPath \<times> SdfPath) list \<Rightarrow> (MDagPath \<times> SdfPath) list" where
  "insertMapping m [] = m"
| "insertMapping m ((k, v) # rest) =
     insertMapping (if map_of m k = None then m @ [(k, v)] else m) rest"

definition writeDefault :: "Env \<Rightarrow> PrimWriter \<Rightarrow> Job \<Rightarrow> Job Result" where
  "writeDefault env primWriter j =
     (if IsValid (GetUsdPrim primWriter) then
        andThen (CheckNameClashes env (GetUsdPrim primWriter) (GetDagPath primWriter) j)
          (\<lambda>j1. let j2 = callExt env (PrimWriterWrite (GetDagPath primWriter) None) j1;
                     j3 = j2\<lparr>mDagPathToUsdPathMap :=
                              insertMapping (mDagPathToUsdPathMap j2)
                                (GetDagToUsdPathMapping primWriter)\<rparr>
                 in Inr (callExt env (OnWritePrim (GetDagPath primWriter)) j3))
      else Inr j)"

definition exportNode :: "Env \<Rightarrow> MDagPath \<Rightarrow> Job \<Rightarrow> (bool \<times> Job) Result" where
  "exportNode env curDagPath j =
     (if \<not> NeedToTraverse env curDagPath \<and> length curDagPath > 0 then Inr (True, j)
      else (let j1 = callExt env (CreatePrimWriter curDagPath) j
            in case createPrimWriterResult env curDagPath of
                 None \<Rightarrow> Inr (False, j1)
               | Some primWriter \<Rightarrow>
                   andThen
                     (writeDefault env primWriter
                        (j1\<lparr>mMayaPrimWriterList := mMayaPrimWriterList j1 @ [primWriter]\<rparr>))
                     (\<lambda>j2. Inr (ShouldPruneChildren primWriter, j2))))"

text \<open>
  One step of the traversal: the result says whether the iterator is pruned at this node,
  and gives the last configured root seen.
\<close>

definition visitNode ::
  "Env \<Rightarrow> MDagPath list \<times> MDagPath list \<Rightarrow> MDagPath \<Rightarrow> MDagPath option \<times> Job
     \<Rightarrow> (bool \<times> MDagPath option \<times> Job) Result" where
  "visitNode env sets curDagPath s =
     (case (sets, s) of ((argDagPaths, argDagPathParents), (curLeafDagPath, j)) \<Rightarrow>
        if curDagPath \<in> set argDagPathParents then
          andThen (exportNode env curDagPath j) (\<lambda>(pruned, j1). Inr (pruned, curLeafDagPath, j1))
        else if curDagPath \<in> set argDagPaths then
          andThen (exportNode env curDagPath j) (\<lambda>(pruned, j1). Inr (pruned, Some curDagPath, j1))
        else if \<not> hasParent curDagPath curLeafDagPath then Inr (True, curLeafDagPath, j)
        else
          andThen (exportNode env curDagPath j) (\<lambda>(pruned, j1). Inr (pruned, curLeafDagPath, j1)))"

fun visitDag ::
  "Env \<Rightarrow> MDagPath list \<times> MDagPath list \<Rightarrow> MDagPath \<Rightarrow> MDag \<Rightarrow> MDagPath option \<times> Job
     \<Rightarrow> (MDagPath option \<times> Job) Result"
and visitDags ::
  "Env \<Rightarrow> MDagPath list \<times> MDagPath list \<Rightarrow> MDagPath \<Rightarrow> MDag list \<Rightarrow> MDagPath option \<times> Job
     \<Rightarrow> (MDagPath option \<times> Job) Result" where
  "visitDag env sets curDagPath (MDag name children) s =
     (case visitNode env sets curDagPath s of
        Inl e \<Rightarrow> Inl e
      | Inr (pruned, s1) \<Rightarrow>
          if pruned then Inr s1 else visitDags env sets curDagPath children s1)"
| "visitDags env sets parentPath [] s = Inr s"
| "visitDags env sets parentPath (child # rest) s =
     (case visitDag env sets (parentPath @ [nodeName child]) child s of
        Inl e \<Rightarrow> Inl e
      | Inr s1 \<Rightarrow> visitDags env sets parentPath rest s1)"

definition traverseDag :: "Env \<Rightarrow> Job \<Rightarrow> Job Result" where
  "traverseDag env j =
     andThen
       (visitDag env (collectArgDagPaths env (dagPaths (mArgs j)) ([], [])) [] (dagWorld env)
          (None, j))
       (\<lambda>(curLeafDagPath, j1). Inr j1)"

definition checkRootIntersection :: "Job \<Rightarrow> Job Result" where
  "checkRootIntersection j =
     (if \<not> rootMapFunctionIsNull (mArgs j) \<and> mDagPathToUsdPathMap j = []
      then Inl (ExportRootNoIntersection, j)
      else Inr j)"

definition postProcessStage :: "Env \<Rightarrow> Job \<Rightarrow> Job Result" where
  "postProcessStage env j =
     (let j1 = callExt env ExportShadingEngines j;
          j2 = callExt env PostProcess j1
      in if \<not> postProcessResult env then Inl (PostProcessFailed, j2)
         else (let j3 = callExt env MakeModelHierarchy j2
               in if \<not> makeModelHierarchyResult env then Inl (MakeModelHierarchyFailed, j3)
                  else Inr j3))"

fun createChasers :: "Env \<Rightarrow> string list \<Rightarrow> Job \<Rightarrow> Job" where
  "createChasers env [] j = j"
| "createChasers env (name # rest) j =
     createChasers env rest
       (case chaserRegistryCreate env name of
          Some fn \<Rightarrow> j\<lparr>mChasers := mChasers j @ [fn]\<rparr>
        | None \<Rightarrow> logEvent (Report (FailedToCreateChaser name)) j)"

fun chasersExportDefault :: "Env \<Rightarrow> Chaser list \<Rightarrow> Job \<Rightarrow> Job Result" where
  "chasersExportDefault env [] j = Inr j"
| "chasersExportDefault env (chaser # rest) j =
     (let j1 = callExt env (ChaserExportDefault (chaserName chaser)) j
      in if \<not> ExportDefault chaser then Inl (ChaserExportDefaultFailed (chaserName chaser), j1)
         else chasersExportDefault env rest j1)"

definition populateChasers :: "Env \<Rightarrow> Job \<Rightarrow> Job Result" where
  "populateChasers env j =
     (let j1 = createChasers env (chaserNames (mArgs j)) (j\<lparr>mChasers := []\<rparr>)
      in chasersExportDefault env (mChasers j1) j1)"

text \<open>
  \<open>_BeginWriting\<close> in three parts: everything up to the opening and set-up of the stage,
  the traversal of the DAG, and what follows the traversal.
\<close>

definition beginPrologue :: "Env \<Rightarrow> string \<Rightarrow> bool \<Rightarrow> Job \<Rightarrow> Job Result" where
  "beginPrologue env fileName appendFlag j =
     (let j1 = normalizeDefaultPrim env (chooseDefaultPrim env j)
      in andThen (checkRootOverlap j1) (\<lambda>j2.
         andThen (setupFileStructure env appendFlag
                    (resolveFileName env (mArgs j2) fileName) j2) (\<lambda>j3.
         andThen (setupModelingVariant env j3) (\<lambda>j4.
         andThen (openFile env appendFlag j4) (\<lambda>j5.
         Inr (setupStage env j5))))))"

definition beginEpilogue :: "Env \<Rightarrow> Job \<Rightarrow> Job Result" where
  "beginEpilogue env j =
     andThen (checkRootIntersection j) (\<lambda>j7.
     andThen (postProcessStage env j7) (\<lambda>j8.
     populateChasers env j8))"

definition BeginWriting :: "Env \<Rightarrow> string \<Rightarrow> bool \<Rightarrow> Job \<Rightarrow> Job Result" where
  "BeginWriting env fileName appendFlag j =
     andThen (beginPrologue env fileName appendFlag j) (\<lambda>j5.
     andThen (traverseDag env j5) (\<lambda>j6.
     beginEpilogue env j6))"

section \<open>Writing a frame\<close>

fun writersWrite :: "Env \<Rightarrow> real \<Rightarrow> PrimWriter list \<Rightarrow> Job \<Rightarrow> Job" where
  "writersWrite env iFrame [] j = j"
| "writersWrite env iFrame (primWriter # rest) j =
     writersWrite env iFrame rest
       (if IsValid (GetUsdPrim primWriter)
        then callExt env (PrimWriterWrite (GetDagPath primWriter) (Some iFrame)) j
        else j)"

fun chasersExportFrame :: "Env \<Rightarrow> real \<Rightarrow> Chaser list \<Rightarrow> Job \<Rightarrow> Job Result" where
  "chasersExportFrame env iFrame [] j = Inr j"
| "chasersExportFrame env iFrame (chaser # rest) j =
     (let j1 = callExt env (ChaserExportFrame (chaserName chaser) iFrame) j
      in if \<not> ExportFrame chaser iFrame
         then Inl (ChaserExportFrameFailed (chaserName chaser), j1)
         else chasersExportFrame env iFrame rest j1)"

definition PerFrameCallback :: "Job \<Rightarrow> Job" where
  "PerFrameCallback j =
     (let j1 = (if melPerFrameCallback (mArgs j) \<noteq> []
                then logEvent (MelCommand (melPerFrameCallback (mArgs j))) j else j)
      in if pythonPerFrameCallback (mArgs j1) \<noteq> []
         then logEvent (PythonCommand (pythonPerFrameCallback (mArgs j1))) j1 else j1)"

definition WriteFrame :: "Env \<Rightarrow> real \<Rightarrow> Job \<Rightarrow> Job Result" where
  "WriteFrame env iFrame j =
     (let j1 = writersWrite env iFrame (mMayaPrimWriterList j) j
      in andThen (chasersExportFrame env iFrame (mChasers j1) j1)
           (\<lambda>j2. Inr (PerFrameCallback j2)))"

text \<open>
  The frame loop of \<open>Write\<close>: \<open>n\<close> frames have been completed before the call.
\<close>

fun frameLoop :: "Env \<Rightarrow> real \<Rightarrow> nat \<Rightarrow> real list \<Rightarrow> Job \<Rightarrow> Job Result" where
  "frameLoop env oldCurTime n [] j = Inr j"
| "frameLoop env oldCurTime n (t # rest) j =
     (case WriteFrame env t (viewFrame t j) of
        Inl (e, j1) \<Rightarrow> Inl (e, viewFrame oldCurTime j1)
      | Inr j1 \<Rightarrow>
          if isInterruptRequested env (Suc n) then Inr j1
          else frameLoop env oldCurTime (Suc n) rest j1)"

section \<open>Variants\<close>

text \<open>
  Authoring on the stage.  \<open>DefinePrim\<close> defines a typeless prim at the path, and at
  each of its ancestors, where there is none.  Activation opinions authored on the root
  layer are recorded in \<open>activation\<close>; those authored inside a variant are recorded with
  the variant.
\<close>

definition newPrim :: UsdPrimData where
  "newPrim = \<lparr>typeName = [], hasPayloads = False, references = [], variantSets = []\<rparr>"

definition DefinePrim :: "UsdStage \<Rightarrow> SdfPath \<Rightarrow> UsdStage" where
  "DefinePrim st path =
     foldl (\<lambda>s p. if primAt s p = None then s\<lparr>prims := prims s @ [(p, newPrim)]\<rparr> else s)
       st (GetPrefixes path)"

definition updatePrim :: "UsdStage \<Rightarrow> SdfPath \<Rightarrow> (UsdPrimData \<Rightarrow> UsdPrimData) \<Rightarrow> UsdStage" where
  "updatePrim st path f =
     st\<lparr>prims := map (\<lambda>(q, d). if q = path then (q, f d) else (q, d)) (prims st)\<rparr>"

definition AddInternalReference :: "UsdStage \<Rightarrow> UsdPrim \<Rightarrow> SdfPath \<Rightarrow> UsdStage" where
  "AddInternalReference st prim target =
     updatePrim st prim (\<lambda>d. d\<lparr>references := references d @ [target]\<rparr>)"

definition SetActive :: "UsdStage \<Rightarrow> UsdPrim \<Rightarrow> bool \<Rightarrow> UsdStage" where
  "SetActive st prim b = st\<lparr>activation := activation st @ [(prim, b)]\<rparr>"

definition GetVariantSet :: "UsdStage \<Rightarrow> UsdPrim \<Rightarrow> string \<Rightarrow> VariantSet option" where
  "GetVariantSet st prim name =
     (case primAt st prim of None \<Rightarrow> None | Some d \<Rightarrow> map_of (variantSets d) name)"

definition AddVariantSet :: "UsdStage \<Rightarrow> UsdPrim \<Rightarrow> string \<Rightarrow> UsdStage" where
  "AddVariantSet st prim name =
     updatePrim st prim
       (\<lambda>d. if map_of (variantSets d) name = None
            then d\<lparr>variantSets := variantSets d @ [(name, \<lparr>variants = [], selection = []\<rparr>)]\<rparr>
            else d)"

definition modifyVariantSet ::
  "UsdStage \<Rightarrow> UsdPrim \<Rightarrow> string \<Rightarrow> (VariantSet \<Rightarrow> VariantSet) \<Rightarrow> UsdStage" where
  "modifyVariantSet st prim name f =
     updatePrim st prim
       (\<lambda>d. d\<lparr>variantSets := map (\<lambda>(n, v). if n = name then (n, f v) else (n, v)) (variantSets d)\<rparr>)"

definition AddVariant :: "UsdStage \<Rightarrow> UsdPrim \<Rightarrow> string \<Rightarrow> string \<Rightarrow> UsdStage" where
  "AddVariant st prim name variantName =
     modifyVariantSet st prim name
       (\<lambda>v. if variantName \<in> fst ` set (variants v) then v
            else v\<lparr>variants := variants v @ [(variantName, [])]\<rparr>)"

definition SetVariantSelection :: "UsdStage \<Rightarrow> UsdPrim \<Rightarrow> string \<Rightarrow> string \<Rightarrow> UsdStage" where
  "SetVariantSelection st prim name variantName =
     modifyVariantSet st prim name (\<lambda>v. v\<lparr>selection := variantName\<rparr>)"

definition deactivateInVariant ::
  "UsdStage \<Rightarrow> UsdPrim \<Rightarrow> string \<Rightarrow> string \<Rightarrow> SdfPath list \<Rightarrow> UsdStage" where
  "deactivateInVariant st prim name variantName primsToDeactivate =
     modifyVariantSet st prim name
       (\<lambda>v. v\<lparr>variants := map (\<lambda>(n, ds). if n = variantName then (n, ds @ primsToDeactivate)
                                          else (n, ds)) (variants v)\<rparr>)"

definition replaceChar :: "char \<Rightarrow> char \<Rightarrow> string \<Rightarrow> string" where
  "replaceChar a b str = map (\<lambda>c. if c = a then b else c) str"

definition fullPathName :: "MDagPath \<Rightarrow> string" where
  "fullPathName dagPath = concat (map (\<lambda>n. CHR ''|'' # n) dagPath)"

definition variantRootPrimPath :: "Job \<Rightarrow> SdfPath Result" where
  "variantRootPrimPath j =
     (if IsEmpty (mRootPrimPath j) then
        (case mMayaPrimWriterList j of
           [] \<Rightarrow> Inl (NoFirstPrimWriter, j)
         | firstPrimWriter # others \<Rightarrow>
             (case GetPrefixes (SdfPath_of_string
                     (replaceChar (CHR '':'') (CHR ''_'')
                        (replaceChar (CHR ''|'') (CHR ''/'')
                           (fullPathName (GetDagPath firstPrimWriter))))) of
                [] \<Rightarrow> Inl (NoPathPrefix, j)
              | prefix0 # longer \<Rightarrow> Inr prefix0))
      else Inr (mRootPrimPath j))"

text \<open>
  The paths a render layer activates: its members, extended to their shape, looked up in
  the path mapping and rebased from their first component to the variant root.
\<close>

fun layerActivePaths :: "Env \<Rightarrow> Job \<Rightarrow> SdfPath \<Rightarrow> MDagPath list \<Rightarrow> SdfPath list" where
  "layerActivePaths env j usdVariantRootPrimPath [] = []"
| "layerActivePaths env j usdVariantRootPrimPath (member # rest) =
     (case map_of (mDagPathToUsdPathMap j) (extendToShape env member) of
        None \<Rightarrow> layerActivePaths env j usdVariantRootPrimPath rest
      | Some usdPrimPath \<Rightarrow>
          ReplacePrefix usdPrimPath
            (case GetPrefixes usdPrimPath of [] \<Rightarrow> None | prefix0 # longer \<Rightarrow> prefix0)
            usdVariantRootPrimPath
          # layerActivePaths env j usdVariantRootPrimPath rest)"

text \<open>
  The prims to deactivate for a variant: every transformable prim that is neither below
  nor above an active path; nothing below a prim chosen for deactivation is visited.
\<close>

fun collectPrimsToDeactivate ::
  "Env \<Rightarrow> UsdStage \<Rightarrow> SdfPath list \<Rightarrow> SdfPath list \<Rightarrow> UsdPrim list \<Rightarrow> UsdPrim list" where
  "collectPrimsToDeactivate env st activePaths pruned [] = []"
| "collectPrimsToDeactivate env st activePaths pruned (usdPrim # rest) =
     (if \<exists>r \<in> set pruned. HasPrefix usdPrim r
      then collectPrimsToDeactivate env st activePaths pruned rest
      else if IsValid usdPrim \<and> IsAXformable env (GetTypeName st usdPrim)
              \<and> \<not> (\<exists>activePath \<in> set activePaths.
                       HasPrefix usdPrim activePath \<or> HasPrefix activePath usdPrim)
      then usdPrim # collectPrimsToDeactivate env st activePaths (usdPrim # pruned) rest
      else collectPrimsToDeactivate env st activePaths pruned rest)"

definition authorVariant :: "Env \<Rightarrow> UsdPrim \<Rightarrow> string \<Rightarrow> SdfPath list \<Rightarrow> UsdStage \<Rightarrow> UsdStage" where
  "authorVariant env usdVariantRootPrim variantName activePaths st =
     (let st1 = AddVariantSet st usdVariantRootPrim ''modelingVariant'';
          st2 = AddVariant st1 usdVariantRootPrim ''modelingVariant'' variantName;
          st3 = SetVariantSelection st2 usdVariantRootPrim ''modelingVariant'' variantName
      in deactivateInVariant st3 usdVariantRootPrim ''modelingVariant'' variantName
           (collectPrimsToDeactivate env st3 activePaths [] (Some [] # Traverse st3)))"

fun renderLayersLoop ::
  "Env \<Rightarrow> UsdPrim \<Rightarrow> RenderLayer list \<Rightarrow> string \<times> Job \<Rightarrow> string \<times> Job" where
  "renderLayersLoop env usdVariantRootPrim [] s = s"
| "renderLayersLoop env usdVariantRootPrim (renderLayer # rest) (defaultModelingVariant, j) =
     (let variantName = layerName renderLayer;
          defaultModelingVariant1 =
            (if renderLayer = defaultRenderLayer env then variantName
             else defaultModelingVariant);
          j1 = setCurrentRenderLayer variantName j;
          activePaths = layerActivePaths env j1 usdVariantRootPrim (listMembers renderLayer);
          j2 = (if activePaths \<noteq> []
                then j1\<lparr>mStage := map_option
                          (authorVariant env usdVariantRootPrim variantName activePaths)
                          (mStage j1)\<rparr>
                else j1)
      in renderLayersLoop env usdVariantRootPrim rest (defaultModelingVariant1, j2))"

definition selectDefaultVariant :: "UsdPrim \<Rightarrow> string \<Rightarrow> UsdStage \<Rightarrow> UsdStage" where
  "selectDefaultVariant usdVariantRootPrim defaultModelingVariant st =
     (if GetVariantSet st usdVariantRootPrim ''modelingVariant'' \<noteq> None
      then SetVariantSelection st usdVariantRootPrim ''modelingVariant'' defaultModelingVariant
      else st)"

definition WriteVariants :: "Env \<Rightarrow> UsdPrim \<Rightarrow> Job \<Rightarrow> (TfToken \<times> Job) Result" where
  "WriteVariants env usdRootPrim j =
     andThen (variantRootPrimPath j) (\<lambda>usdVariantRootPrimPath.
       let j1 = j\<lparr>mStage := map_option
                    (\<lambda>st. SetActive
                            (SetActive
                               (AddInternalReference (DefinePrim st usdVariantRootPrimPath)
                                  usdVariantRootPrimPath usdRootPrim)
                               usdVariantRootPrimPath True)
                            usdRootPrim False)
                    (mStage j)\<rparr>
       in (case renderLayersLoop env usdVariantRootPrimPath (mRenderLayerObjs j1) ([], j1) of
             (defaultModelingVariant, j2) \<Rightarrow>
               Inr (GetName usdVariantRootPrimPath,
                    j2\<lparr>mStage := map_option
                          (selectDefaultVariant usdVariantRootPrimPath defaultModelingVariant)
                          (mStage j2)\<rparr>)))"

section \<open>Finishing the write\<close>

definition pruneDefaultPrimPath :: "JobArgs \<Rightarrow> SdfPath" where
  "pruneDefaultPrimPath args =
     (case defaultPrim args of
        [] \<Rightarrow> None
      | c # cs \<Rightarrow>
          if c \<noteq> CHR ''/'' then SdfPath_of_string (''/'' @ defaultPrim args)
          else SdfPath_of_string (defaultPrim args))"

definition PruneEmpties :: "JobArgs \<Rightarrow> UsdStage \<Rightarrow> UsdStage" where
  "PruneEmpties args st =
     (if includeEmptyTransforms args then st
      else (let defaultPrimPath = pruneDefaultPrimPath args
            in pruneLoop defaultPrimPath st
                 [prim \<leftarrow> Traverse st. defaultPrimPath \<noteq> prim \<and> isEmptyPrim st prim]))"

definition restoreRenderLayer :: "Job \<Rightarrow> Job" where
  "restoreRenderLayer j =
     (if sceneRenderLayer j \<noteq> mCurrentRenderLayerName j
      then setCurrentRenderLayer (mCurrentRenderLayerName j) j
      else j)"

definition authorUnits :: "Env \<Rightarrow> Job \<Rightarrow> Job" where
  "authorUnits env j =
     (let j1 = (if metersPerUnit (mArgs j) \<noteq> mayaInternalUnitLinear env
                then logEvent (Report DistanceUnitWarning) j else j)
      in if exportDistanceUnit (mArgs j1)
         then logEvent (SetStageMetersPerUnit (metersPerUnit (mArgs j1))) j1
         else j1)"

definition authorDefaultPrim :: "UsdPrim \<Rightarrow> TfToken \<Rightarrow> Job \<Rightarrow> Job" where
  "authorDefaultPrim usdRootPrim defaultPrimToken j =
     (if defaultPrim (mArgs j) \<noteq> [] then
        (if defaultPrim (mArgs j) \<noteq> ''None''
         then logEvent (SetDefaultPrim (defaultPrim (mArgs j))) j
         else j)
      else if IsValid usdRootPrim then logEvent (SetDefaultPrim defaultPrimToken) j
      else j)"

fun writersPostExport :: "Env \<Rightarrow> PrimWriter list \<Rightarrow> Job \<Rightarrow> Job" where
  "writersPostExport env [] j = j"
| "writersPostExport env (primWriter # rest) j =
     writersPostExport env rest (callExt env (PrimWriterPostExport (GetDagPath primWriter)) j)"

fun chasersPostExport :: "Env \<Rightarrow> Chaser list \<Rightarrow> Job \<Rightarrow> Job Result" where
  "chasersPostExport env [] j = Inr j"
| "chasersPostExport env (chaser # rest) j =
     (let j1 = callExt env (ChaserPostExport (chaserName chaser)) j
      in if \<not> PostExport chaser then Inl (ChaserPostExportFailed (chaserName chaser), j1)
         else chasersPostExport env rest
                (j1\<lparr>mExtrasPrimsPaths := mExtrasPrimsPaths j1 @ GetExtraPrimsPaths chaser\<rparr>))"

definition PostCallback :: "Job \<Rightarrow> Job" where
  "PostCallback j =
     (let j1 = (if melPostCallback (mArgs j) \<noteq> []
                then logEvent (MelCommand (melPostCallback (mArgs j))) j else j)
      in if pythonPostCallback (mArgs j1) \<noteq> []
         then logEvent (PythonCommand (pythonPostCallback (mArgs j1))) j1 else j1)"

definition saveStage :: "Env \<Rightarrow> Job \<Rightarrow> Job" where
  "saveStage env j =
     (if PermissionToSave env
      then (logEvent (Save (mFileName j)) j)\<lparr>files := mFileName j # files j\<rparr>
      else j)"

definition CreatePackage :: "Env \<Rightarrow> Job \<Rightarrow> Job" where
  "CreatePackage env j =
     (let firstLayerBaseName = TfStringGetBeforeSuffix env (TfGetBaseName env (mPackageName j));
          firstLayerName = firstLayerBaseName @ ''.'' @ TfGetExtension env (mFileName j);
          j1 = (if compatibility (mArgs j) = appleArKit
                then logEvent (CreateNewARKitUsdzPackage (mFileName j) (mPackageName j)
                                 firstLayerName) j
                else logEvent (CreateNewUsdzPackage (mFileName j) (mPackageName j)
                                 firstLayerName) j)
      in if \<not> createPackageResult env
         then logEvent (Report (CouldNotCreatePackage (mPackageName j) (mFileName j))) j1
         else j1\<lparr>files := mPackageName j # files j1\<rparr>)"

text \<open>
  Deleting a file removes it only when no handle on the stage is outstanding: the source
  resets the stage and clears the writer list first because an outstanding handle causes
  file access issues.
\<close>

definition TfDeleteFile :: "string \<Rightarrow> Job \<Rightarrow> Job" where
  "TfDeleteFile name j =
     (let j1 = logEvent (DeleteFile name) j
      in if mStage j1 = None \<and> mMayaPrimWriterList j1 = []
         then j1\<lparr>files := removeAll name (files j1)\<rparr>
         else j1)"

definition persistAndRelease :: "Env \<Rightarrow> Job \<Rightarrow> Job" where
  "persistAndRelease env j =
     (let j1 = j\<lparr>mStage := map_option (PruneEmpties (mArgs j)) (mStage j)\<rparr>;
          j2 = (logEvent RestoreUpAxisAndUnits j1)\<lparr>autoAxisAndUnitsChanger := False\<rparr>;
          j3 = saveStage env j2;
          j4 = (if mPackageName j3 \<noteq> [] then CreatePackage env j3 else j3);
          j5 = (logEvent ReleaseStage j4)\<lparr>mStage := None\<rparr>;
          j6 = (logEvent ClearPrimWriters j5)\<lparr>mMayaPrimWriterList := []\<rparr>
      in if mPackageName j6 \<noteq> [] then TfDeleteFile (mFileName j6) j6 else j6)"

definition FinishWriting :: "Env \<Rightarrow> Job \<Rightarrow> Job Result" where
  "FinishWriting env j =
     (case mStage j of
        None \<Rightarrow> Inl (NoStage, j)
      | Some st \<Rightarrow>
          (let usdRootPrims = GetAllChildren st (Some []);
               usdRootPrim = (case usdRootPrims of [] \<Rightarrow> None | p # ps \<Rightarrow> p);
               defaultPrimToken = (case usdRootPrims of [] \<Rightarrow> [] | p # ps \<Rightarrow> GetName p)
           in andThen
                (if IsValid usdRootPrim \<and> length (mRenderLayerObjs j) > 1
                    \<and> \<not> IsEmpty (usdModelRootOverridePath (mArgs j))
                 then WriteVariants env usdRootPrim j
                 else Inr (defaultPrimToken, j))
                (\<lambda>(defaultPrimToken1, j1).
                   let j2 = authorDefaultPrim usdRootPrim defaultPrimToken1
                              (authorUnits env (restoreRenderLayer j1));
                       j3 = (writersPostExport env (mMayaPrimWriterList j2) j2)
                              \<lparr>mExtrasPrimsPaths := []\<rparr>
                   in andThen (chasersPostExport env (mChasers j3) j3)
                        (\<lambda>j4. Inr (persistAndRelease env (PostCallback j4))))))"

section \<open>The entry point\<close>

definition Write :: "Env \<Rightarrow> string \<Rightarrow> bool \<Rightarrow> Job \<Rightarrow> Job Result" where
  "Write env fileName appendFlag j =
     andThen (BeginWriting env fileName appendFlag j) (\<lambda>j1.
       andThen
         (if timeSamples (mArgs j1) \<noteq> [] then
            (let oldCurTime = sceneTime j1
             in andThen (frameLoop env oldCurTime 0 (timeSamples (mArgs j1)) j1)
                  (\<lambda>j2. Inr (viewFrame oldCurTime j2)))
          else Inr j1)
         (\<lambda>j3. FinishWriting env j3))"

section \<open>Notions used in the statements\<close>

text \<open>
  A path that \<open>RemovePrim\<close> acts on, and the paths that survive the removal of a list of
  paths.
\<close>

definition removable :: "SdfPath \<Rightarrow> bool" where
  "removable r = (case r of Some (x # xs) \<Rightarrow> True | _ \<Rightarrow> False)"

definition survives :: "SdfPath list \<Rightarrow> SdfPath \<Rightarrow> bool" where
  "survives tr q = (\<forall>r \<in> set tr. \<not> (removable r \<and> HasPrefix q r))"

text \<open>
  A chain of nested plain containers below \<open>base\<close>: the \<open>k\<close>-th prim of the chain is
  \<open>base/n\<^sub>1/.../n\<^sub>k\<close>; each is of a container type with no payloads and no references
  authored, and the stage has nothing at or below the first prim of the chain besides
  the chain itself.
\<close>

definition chainPath :: "string list \<Rightarrow> string list \<Rightarrow> nat \<Rightarrow> SdfPath" where
  "chainPath base names k = Some (base @ take k names)"

definition plainContainerChain :: "UsdStage \<Rightarrow> string list \<Rightarrow> string list \<Rightarrow> bool" where
  "plainContainerChain st base names =
     (names \<noteq> []
      \<and> (\<forall>k \<in> {1 .. length names}.
            GetTypeName st (chainPath base names k) \<in> emptyTypes
            \<and> \<not> HasAuthoredPayloads st (chainPath base names k)
            \<and> \<not> HasAuthoredReferences st (chainPath base names k))
      \<and> (\<forall>q \<in> set (Traverse st).
            HasPrefix q (chainPath base names 1) \<longrightarrow>
            q \<in> chainPath base names ` {1 .. length names}))"

text \<open>
  What the traversal and the steps after it leave untouched: the arguments, the
  destination names, the files and the render layers; the record of calls only grows.
\<close>

definition sameSetup :: "Job \<Rightarrow> Job \<Rightarrow> bool" where
  "sameSetup j j' =
     (mArgs j' = mArgs j \<and> mFileName j' = mFileName j \<and> mPackageName j' = mPackageName j
      \<and> files j' = files j \<and> mRenderLayerObjs j' = mRenderLayerObjs j
      \<and> mRootPrimPath j' = mRootPrimPath j \<and> sceneTime j' = sceneTime j
      \<and> (mStage j \<noteq> None \<longrightarrow> mStage j' \<noteq> None)
      \<and> prefix (trace j) (trace j'))"

text \<open>
  What writing the frames and most of the finishing leave untouched: everything but the
  content of the stage, Maya's current time and render layer, the extra prim paths and
  the record of calls.
\<close>

definition sameJob :: "Job \<Rightarrow> Job \<Rightarrow> bool" where
  "sameJob j j' =
     (mArgs j' = mArgs j \<and> mRootPrimPath j' = mRootPrimPath j
      \<and> mMayaPrimWriterList j' = mMayaPrimWriterList j \<and> mChasers j' = mChasers j
      \<and> mDagPathToUsdPathMap j' = mDagPathToUsdPathMap j
      \<and> mRenderLayerObjs j' = mRenderLayerObjs j
      \<and> mCurrentRenderLayerName j' = mCurrentRenderLayerName j
      \<and> mFileName j' = mFileName j \<and> mPackageName j' = mPackageName j
      \<and> files j' = files j \<and> (mStage j' = None \<longleftrightarrow> mStage j = None))"

text \<open>
  The calls of one frame, in the order the claims give them: the time change, the write
  of every writer whose prim is valid, the per-frame hook of every chaser, the per-frame
  callbacks.  A frame hook is a writer's write at a time sample or a chaser's per-frame
  hook.
\<close>

definition frameWrites :: "real \<Rightarrow> PrimWriter list \<Rightarrow> Event list" where
  "frameWrites t writers =
     map (\<lambda>w. PrimWriterWrite (GetDagPath w) (Some t)) (filter (\<lambda>w. IsValid (GetUsdPrim w)) writers)"

definition frameChasers :: "real \<Rightarrow> Chaser list \<Rightarrow> Event list" where
  "frameChasers t chasers = map (\<lambda>c. ChaserExportFrame (chaserName c) t) chasers"

definition frameCallbacks :: "JobArgs \<Rightarrow> Event list" where
  "frameCallbacks args =
     (if melPerFrameCallback args \<noteq> [] then [MelCommand (melPerFrameCallback args)] else [])
     @ (if pythonPerFrameCallback args \<noteq> [] then [PythonCommand (pythonPerFrameCallback args)]
        else [])"

definition frameEvents :: "Job \<Rightarrow> real \<Rightarrow> Event list" where
  "frameEvents j t =
     ViewFrame t # frameWrites t (mMayaPrimWriterList j) @ frameChasers t (mChasers j)
     @ frameCallbacks (mArgs j)"

text \<open>
  \<open>quiet j j'\<close>: the calls recorded from \<open>j\<close> to \<open>j'\<close> contain no frame hook.
  \<open>packagingCall\<close> is the packaging call of \<open>_CreatePackage\<close>.
\<close>

fun isFrameHook :: "Event \<Rightarrow> bool" where
  "isFrameHook (PrimWriterWrite dagPath (Some t)) = True"
| "isFrameHook (ChaserExportFrame name t) = True"
| "isFrameHook e = False"

definition quiet :: "Job \<Rightarrow> Job \<Rightarrow> bool" where
  "quiet j j' = (\<exists>fin. trace j' = trace j @ fin \<and> (\<forall>e \<in> set fin. \<not> isFrameHook e))"

definition calm :: "Job \<Rightarrow> Job \<Rightarrow> bool" where
  "calm j j' = (sameJob j j' \<and> quiet j j')"

definition packagingCall :: "Env \<Rightarrow> Job \<Rightarrow> Event" where
  "packagingCall env j =
     (let firstLayerName = TfStringGetBeforeSuffix env (TfGetBaseName env (mPackageName j))
                             @ ''.'' @ TfGetExtension env (mFileName j)
      in if compatibility (mArgs j) = appleArKit
         then CreateNewARKitUsdzPackage (mFileName j) (mPackageName j) firstLayerName
         else CreateNewUsdzPackage (mFileName j) (mPackageName j) firstLayerName)"

definition persistEvents :: "Env \<Rightarrow> Job \<Rightarrow> Event list" where
  "persistEvents env j =
     (if PermissionToSave env then [Save (mFileName j)] else [])
     @ (if mPackageName j \<noteq> []
        then packagingCall env j
             # (if createPackageResult env then []
                else [Report (CouldNotCreatePackage (mPackageName j) (mFileName j))])
        else [])
     @ [ReleaseStage, ClearPrimWriters]
     @ (if mPackageName j \<noteq> [] then [DeleteFile (mFileName j)] else [])"

definition hasVariant :: "UsdStage \<Rightarrow> UsdPrim \<Rightarrow> string \<Rightarrow> bool" where
  "hasVariant st prim name =
     (\<exists>vs. GetVariantSet st prim ''modelingVariant'' = Some vs \<and> name \<in> fst ` set (variants vs))"

definition variantRootKnown :: "Job \<Rightarrow> bool" where
  "variantRootKnown j = (length (mRenderLayerObjs j) \<le> 1 \<or> succeeded (variantRootPrimPath j))"

text \<open>
  The nodes the traversal reaches.  \<open>visits env sets start target\<close>: the traversal that
  starts at the node \<open>start\<close> (its path, its subtree, and the state on arrival) arrives at
  the node \<open>target\<close>, having gone through the nodes before it without an error and
  without pruning an ancestor of it.
\<close>

inductive visits ::
  "Env \<Rightarrow> MDagPath list \<times> MDagPath list
     \<Rightarrow> MDagPath \<times> MDag \<times> (MDagPath option \<times> Job)
     \<Rightarrow> MDagPath \<times> MDag \<times> (MDagPath option \<times> Job) \<Rightarrow> bool"
  for env sets where
    visits_here: "visits env sets start start"
  | visits_below:
      "visitNode env sets cur s = Inr (False, s1) \<Longrightarrow>
       visitDags env sets cur before s1 = Inr s2 \<Longrightarrow>
       visits env sets (cur @ [nodeName child], child, s2) target \<Longrightarrow>
       visits env sets (cur, MDag name (before @ child # after), s) target"

section \<open>Example configurations\<close>

definition plainArgs :: JobArgs where
  "plainArgs = \<lparr>timeSamples = [], verbose = False, rootPrim = None, exportRoots = [],
     exportSelected = False, isExportingMeshes = True, isExportingLights = True,
     isExportingCameras = True, exportStagesAsRefs = True, legacyMaterialScope = False,
     defaultPrim = [], stripNamespaces = False, mergeTransformAndShape = True, dagPaths = [],
     compatibility = ''none'', renderLayerMode = ''defaultLayer'', rootMapFunctionIsNull = True,
     usdModelRootOverridePath = None, upAxis = ''mayaPrefs'', unit = ''mayaPrefs'',
     customLayerData = [], chaserNames = [], metersPerUnit = 1 / 100, exportDistanceUnit = False,
     includeEmptyTransforms = False, melPerFrameCallback = [], pythonPerFrameCallback = [],
     melPostCallback = [], pythonPostCallback = []\<rparr>"

definition typedPrim :: "TfToken \<Rightarrow> UsdPrimData" where
  "typedPrim t = \<lparr>typeName = t, hasPayloads = False, references = [], variantSets = []\<rparr>"

definition chainStage :: UsdStage where
  "chainStage = \<lparr>prims = [(Some [''root''], typedPrim ''Xform''),
                           (Some [''a''], typedPrim ''Xform''),
                           (Some [''a'', ''b''], typedPrim ''Scope''),
                           (Some [''a'', ''b'', ''c''], typedPrim ''Xform''),
                           (Some [''m''], typedPrim ''Mesh'')],
                  activation = []\<rparr>"

text \<open>
  A small environment and a fresh job: one render layer, an empty DAG, no writers and no
  chasers; a file extension is what follows the last dot of a name.
\<close>

definition lastSuffix :: "string \<Rightarrow> string" where
  "lastSuffix name = (case splitOn (CHR ''.'') name of [] \<Rightarrow> [] | [w] \<Rightarrow> [] | ws \<Rightarrow> last ws)"

definition emptyStage :: UsdStage where
  "emptyStage = \<lparr>prims = [], activation = []\<rparr>"

definition defaultLayer :: RenderLayer where
  "defaultLayer = \<lparr>layerName = ''defaultRenderLayer'', listMembers = []\<rparr>"

definition plainEnv :: Env where
  "plainEnv = \<lparr>executePythonCommand = (\<lambda>cmd. []),
     MayaNodeNameToPrimName = (\<lambda>name strip. name),
     TfGetExtension = lastSuffix,
     TfGetPathName = (\<lambda>name. []),
     TfGetBaseName = (\<lambda>name. name),
     TfStringGetBeforeSuffix = (\<lambda>name. hd (splitOn (CHR ''.'') name)),
     TfStringCatPaths = (\<lambda>dir name. dir @ name),
     uuidString = ''0000'',
     openFileResult = (\<lambda>name appendFlag. Some emptyStage),
     listAllRenderLayers = [defaultLayer],
     defaultRenderLayer = defaultLayer,
     dagPathIsValid = (\<lambda>p. True),
     dagWorld = MDag [] [],
     NeedToTraverse = (\<lambda>p. True),
     createPrimWriterResult = (\<lambda>p. None),
     extendToShape = (\<lambda>p. p),
     postProcessResult = True,
     makeModelHierarchyResult = True,
     chaserRegistryCreate = (\<lambda>name. None),
     isInterruptRequested = (\<lambda>n. False),
     PermissionToSave = True,
     createPackageResult = True,
     mayaInternalUnitLinear = 1 / 100,
     IsAXformable = (\<lambda>t. t = ''Xform'' \<or> t = ''Mesh''),
     authoringEffect = (\<lambda>e st. st)\<rparr>"

definition plainJob :: Job where
  "plainJob = \<lparr>mArgs = plainArgs, mStage = None, mRootPrimPath = None,
     mMayaPrimWriterList = [], mChasers = [], mDagPathToUsdPathMap = [],
     mUsdPathToDagPathMap = [], mRenderLayerObjs = [], mCurrentRenderLayerName = [],
     mFileName = [], mPackageName = [], mExtrasPrimsPaths = [],
     autoAxisAndUnitsChanger = False, files = [], sceneRenderLayer = ''defaultRenderLayer'',
     sceneTime = 1, trace = []\<rparr>"

definition overlapJob :: Job where
  "overlapJob = plainJob\<lparr>mArgs := plainArgs\<lparr>dagPaths := [[''grp''], [''grp'', ''cube''], [''lamp'']]\<rparr>\<rparr>"

definition variantRootsJob :: Job where
  "variantRootsJob = plainJob\<lparr>mArgs := plainArgs\<lparr>renderLayerMode := modelingVariant,
                                               rootMapFunctionIsNull := False\<rparr>\<rparr>"

definition twoLayersEnv :: Env where
  "twoLayersEnv = plainEnv\<lparr>listAllRenderLayers :=
      [defaultLayer, \<lparr>layerName = ''layer1'', listMembers = []\<rparr>]\<rparr>"

definition exportRootsJob :: Job where
  "exportRootsJob = plainJob\<lparr>mArgs := plainArgs\<lparr>exportRoots := [[], ''grp'', [], ''lamp'']\<rparr>\<rparr>"

definition arkitJob :: Job where
  "arkitJob = plainJob\<lparr>mArgs := plainArgs\<lparr>compatibility := appleArKit\<rparr>\<rparr>"

text \<open>
  Two nodes that differ in their namespace only, with namespaces stripped: both writers
  have the prim \<open>/cube\<close>.
\<close>

definition cubeWriter :: "MDagPath \<Rightarrow> PrimWriter" where
  "cubeWriter dagPath = \<lparr>GetDagPath = dagPath, GetUsdPrim = Some [''cube''],
     ShouldPruneChildren = False, GetDagToUsdPathMapping = [(dagPath, Some [''cube''])]\<rparr>"

definition clashEnv :: Env where
  "clashEnv = plainEnv\<lparr>
     dagWorld := MDag [] [MDag ''ns1:cube'' [], MDag ''ns2:cube'' []],
     createPrimWriterResult := (\<lambda>p. if p = [] then None else Some (cubeWriter p))\<rparr>"

definition clashJob :: Job where
  "clashJob = plainJob\<lparr>mArgs := plainArgs\<lparr>stripNamespaces := True,
     dagPaths := [[''ns1:cube''], [''ns2:cube'']]\<rparr>\<rparr>"

text \<open>
  A scene with two nodes, of which one has a writer with a valid prim and the other a
  writer with none, and two chasers, of which one refuses every time sample from 2 on;
  three time samples.
\<close>

definition nullWriter :: "MDagPath \<Rightarrow> PrimWriter" where
  "nullWriter dagPath = \<lparr>GetDagPath = dagPath, GetUsdPrim = None,
     ShouldPruneChildren = False, GetDagToUsdPathMapping = []\<rparr>"

definition steadyChaser :: Chaser where
  "steadyChaser = \<lparr>chaserName = ''steady'', ExportDefault = True, ExportFrame = (\<lambda>t. True),
     PostExport = True, GetExtraPrimsPaths = []\<rparr>"

definition pickyChaser :: Chaser where
  "pickyChaser = \<lparr>chaserName = ''picky'', ExportDefault = True, ExportFrame = (\<lambda>t. t < 2),
     PostExport = True, GetExtraPrimsPaths = []\<rparr>"

definition framesEnv :: Env where
  "framesEnv = plainEnv\<lparr>
     dagWorld := MDag [] [MDag ''cube'' [], MDag ''null'' []],
     createPrimWriterResult :=
       (\<lambda>p. if p = [''cube''] then Some (cubeWriter p)
            else if p = [''null''] then Some (nullWriter p) else None),
     chaserRegistryCreate :=
       (\<lambda>name. if name = ''steady'' then Some steadyChaser
               else if name = ''picky'' then Some pickyChaser else None)\<rparr>"

definition framesJob :: Job where
  "framesJob = plainJob\<lparr>mArgs := plainArgs\<lparr>timeSamples := [1, 2, 3],
     dagPaths := [[''cube''], [''null'']], chaserNames := [''steady'', ''picky'']\<rparr>\<rparr>"

definition cancelEnv :: Env where
  "cancelEnv = framesEnv\<lparr>isInterruptRequested := (\<lambda>n. n = 1)\<rparr>"

text \<open>
  A job about to finish a package export, in an environment where packaging fails.
\<close>

definition noPackageEnv :: Env where
  "noPackageEnv = plainEnv\<lparr>createPackageResult := False\<rparr>"

definition packageJob :: Job where
  "packageJob = plainJob\<lparr>mStage := Some emptyStage, mFileName := ''tmp-0000.usdc'',
     mPackageName := ''scene.usdz'', autoAxisAndUnitsChanger := True\<rparr>"

text \<open>
  Three render layers, of which the second is Maya's default layer; the first two have
  the exported cube as member, the third has no member.
\<close>

definition layerA :: RenderLayer where
  "layerA = \<lparr>layerName = ''layerA'', listMembers = [[''cube'']]\<rparr>"

definition layerB :: RenderLayer where
  "layerB = \<lparr>layerName = ''defaultRenderLayer'', listMembers = [[''cube'']]\<rparr>"

definition layerC :: RenderLayer where
  "layerC = \<lparr>layerName = ''layerC'', listMembers = []\<rparr>"

definition variantsEnv :: Env where
  "variantsEnv = plainEnv\<lparr>listAllRenderLayers := [layerA, layerB, layerC],
                          defaultRenderLayer := layerB\<rparr>"

definition variantsJob :: Job where
  "variantsJob = plainJob\<lparr>
     mStage := Some \<lparr>prims = [(Some [''_BaseModel_''], typedPrim ''Xform''),
                              (Some [''_BaseModel_'', ''cube''], typedPrim ''Mesh'')],
                     activation = []\<rparr>,
     mMayaPrimWriterList := [cubeWriter [''cube'']],
     mDagPathToUsdPathMap := [([''cube''], Some [''_BaseModel_'', ''cube''])],
     mRenderLayerObjs := [layerA, layerB, layerC]\<rparr>"


section \<open>Pruning: properties\<close>

lemma removeEmptyPrims_snd: "snd (removeEmptyPrims st ps) = map GetParentPath ps"
proof (induction ps arbitrary: st)
  case Nil
  then show ?case by simp
next
  case (Cons a ps)
  from Cons [of "RemovePrim st a"] show ?case
    by (cases "removeEmptyPrims (RemovePrim st a) ps") simp
qed

lemma RemovePrim_prims:
  "prims (RemovePrim st r) = filter (\<lambda>(q, d). \<not> (removable r \<and> HasPrefix q r)) (prims st)"
  by (auto simp: RemovePrim_def removable_def split: option.splits list.splits)

lemma removeEmptyPrims_prims:
  "prims (fst (removeEmptyPrims st tr)) = filter (\<lambda>(q, d). survives tr q) (prims st)"
proof (induction tr arbitrary: st)
  case Nil
  then show ?case by (simp add: survives_def)
next
  case (Cons r tr)
  have "prims (fst (removeEmptyPrims st (r # tr))) = prims (fst (removeEmptyPrims (RemovePrim st r) tr))"
    by (simp split: prod.splits)
  also have "\<dots> = filter (\<lambda>(q, d). survives tr q) (prims (RemovePrim st r))"
    by (rule Cons.IH)
  also have "\<dots> = filter (\<lambda>(q, d). survives (r # tr) q) (prims st)"
    unfolding RemovePrim_prims by (auto simp: survives_def intro!: filter_cong)
  finally show ?case .
qed

lemma map_of_filter_key:
  "map_of (filter (\<lambda>(q, d). K q) xs) p = (if K p then map_of xs p else None)"
  by (induction xs) auto

lemma primAt_filter:
  assumes "prims st' = filter (\<lambda>(q, d). K q) (prims st)"
  shows "primAt st' p = (if K p then primAt st p else None)"
  using assms by (auto simp: primAt_def map_of_filter_key split: option.splits list.splits)

lemma primAt_nonroot: "primAt st p = Some d \<Longrightarrow> removable p"
  by (auto simp: primAt_def removable_def split: option.splits list.splits)

lemma primAt_in_prims: "primAt st p = Some d \<Longrightarrow> p \<in> fst ` set (prims st)"
  by (auto simp: primAt_def split: option.splits list.splits dest!: map_of_SomeD intro: rev_image_eqI)

lemma isEmptyPrimAt_eq: "isEmptyPrimAt st q = isEmptyPrim st q"
  by (auto simp: isEmptyPrimAt_def isEmptyPrim_def GetPrimAtPath_def IsValid_def GetTypeName_def
        emptyTypes_def primAt_def split: option.splits list.splits)

lemma isEmptyPrim_iff:
  "isEmptyPrim st q \<longleftrightarrow>
     (\<exists>d. primAt st q = Some d \<and> typeName d \<in> emptyTypes \<and> \<not> hasPayloads d \<and> references d = [])
     \<and> (\<forall>c. primAt st c \<noteq> None \<longrightarrow> GetParentPath c \<noteq> q)"
proof -
  have kids: "GetAllChildren st q = [] \<longleftrightarrow> (\<forall>c. primAt st c \<noteq> None \<longrightarrow> GetParentPath c \<noteq> q)"
  proof
    assume a: "GetAllChildren st q = []"
    show "\<forall>c. primAt st c \<noteq> None \<longrightarrow> GetParentPath c \<noteq> q"
    proof (intro allI impI)
      fix c assume c: "primAt st c \<noteq> None"
      then obtain d where "primAt st c = Some d" by auto
      then have "c \<in> set (map fst (prims st))" using primAt_in_prims by simp
      with a c show "GetParentPath c \<noteq> q"
        unfolding GetAllChildren_def filter_empty_conv by blast
    qed
  next
    assume "\<forall>c. primAt st c \<noteq> None \<longrightarrow> GetParentPath c \<noteq> q"
    then show "GetAllChildren st q = []"
      unfolding GetAllChildren_def filter_empty_conv by blast
  qed
  have none: "primAt st None = None" by (simp add: primAt_def)
  show ?thesis
    unfolding isEmptyPrim_def kids
    apply (cases "primAt st q")
    using none
     apply (auto simp: IsValid_def GetTypeName_def HasAuthoredPayloads_def
          HasAuthoredReferences_def emptyTypes_def)
     apply (metis option.distinct(1))+
    done
qed

lemma prefix_not_butlast:
  "prefix rs cs \<Longrightarrow> cs \<noteq> [] \<Longrightarrow> \<not> prefix rs (butlast cs) \<Longrightarrow> rs = cs"
  by (metis append_butlast_last_id prefix_snoc)

lemma HasPrefix_parent:
  assumes "HasPrefix c r" "GetParentPath c = q" "\<not> HasPrefix q r" "q \<noteq> None"
  shows "r = c"
  using assms
  by (auto simp: HasPrefix_def GetParentPath_def split: option.splits list.splits
        dest: prefix_not_butlast)

lemma HasPrefix_refl: "removable q \<Longrightarrow> HasPrefix q q"
  by (auto simp: HasPrefix_def removable_def split: option.splits)

lemma prune_step_invariant:
  assumes inv: "\<forall>q. isEmptyPrim st q \<and> q \<noteq> dp \<longrightarrow> q \<in> set tr"
    and st': "prims st' = filter (\<lambda>(q, d). survives tr q) (prims st)"
    and e: "isEmptyPrim st' q" and ndp: "q \<noteq> dp"
  shows "q \<in> GetParentPath ` set tr"
proof -
  from e obtain d where d: "primAt st' q = Some d" "typeName d \<in> emptyTypes"
      "\<not> hasPayloads d" "references d = []"
    and nokids: "\<forall>c. primAt st' c \<noteq> None \<longrightarrow> GetParentPath c \<noteq> q"
    unfolding isEmptyPrim_iff by blast
  from d(1) have sq: "survives tr q" and dq: "primAt st q = Some d"
    using primAt_filter [OF st', of q] by (auto split: if_splits)
  have rq: "removable q" using dq by (rule primAt_nonroot)
  show ?thesis
  proof (cases "isEmptyPrim st q")
    case True
    with inv ndp have "q \<in> set tr" by blast
    with rq HasPrefix_refl [OF rq] sq show ?thesis by (auto simp: survives_def)
  next
    case False
    with dq d obtain c where c: "primAt st c \<noteq> None" "GetParentPath c = q"
      unfolding isEmptyPrim_iff by auto
    from nokids c(2) have "primAt st' c = None" by blast
    with c(1) have "\<not> survives tr c"
      using primAt_filter [OF st', of c] by (auto split: if_splits)
    then obtain r where r: "r \<in> set tr" "removable r" "HasPrefix c r"
      by (auto simp: survives_def)
    from sq r have "\<not> HasPrefix q r" by (auto simp: survives_def)
    moreover from rq have "q \<noteq> None" by (auto simp: removable_def split: option.splits)
    ultimately have "r = c" using HasPrefix_parent [OF r(3) c(2)] by blast
    with r(1) c(2) show ?thesis by blast
  qed
qed

lemma pruneLoop_unfold:
  "pruneLoop dp st tr =
     (if tr = [] then st
      else pruneLoop dp (fst (removeEmptyPrims st tr))
             [path \<leftarrow> map GetParentPath tr. dp \<noteq> path \<and> isEmptyPrim (fst (removeEmptyPrims st tr)) path])"
proof (cases "removeEmptyPrims st tr")
  case (Pair st' rs)
  with removeEmptyPrims_snd [of st tr] have "rs = map GetParentPath tr" by simp
  with Pair show ?thesis
    by (subst pruneLoop.simps) (simp add: isEmptyPrimAt_eq)
qed

lemma pruneLoop_fixed_point:
  "\<forall>q. isEmptyPrim st q \<and> q \<noteq> dp \<longrightarrow> q \<in> set tr \<Longrightarrow>
   isEmptyPrim (pruneLoop dp st tr) q \<Longrightarrow> q = dp"
proof (induction dp st tr rule: pruneLoop.induct)
  case (1 dp st tr)
  show ?case
  proof (cases "tr = []")
    case True
    with "1.prems" show ?thesis by (subst (asm) pruneLoop_unfold) auto
  next
    case False
    define st' where "st' = fst (removeEmptyPrims st tr)"
    define tr' where "tr' = [path \<leftarrow> map GetParentPath tr. dp \<noteq> path \<and> isEmptyPrim st' path]"
    have eq: "pruneLoop dp st tr = pruneLoop dp st' tr'"
      using False unfolding st'_def tr'_def by (subst pruneLoop_unfold) simp
    have st': "prims st' = filter (\<lambda>(q, d). survives tr q) (prims st)"
      unfolding st'_def by (rule removeEmptyPrims_prims)
    have inv': "\<forall>q. isEmptyPrim st' q \<and> q \<noteq> dp \<longrightarrow> q \<in> set tr'"
      using prune_step_invariant [OF "1.prems"(1) st'] unfolding tr'_def by auto
    have "removeEmptyPrims st tr = (st', map GetParentPath tr)"
      unfolding st'_def using removeEmptyPrims_snd [of st tr] by (metis prod.collapse)
    from "1.IH" [OF False this [symmetric] ] inv' "1.prems"(2) show ?thesis
      unfolding eq tr'_def by (simp add: isEmptyPrimAt_eq)
  qed
qed


lemma pruneLoop_primAt_mono:
  "primAt (pruneLoop dp st tr) p = Some d \<Longrightarrow> primAt st p = Some d"
proof (induction dp st tr rule: pruneLoop.induct)
  case (1 dp st tr)
  show ?case
  proof (cases "tr = []")
    case True
    with "1.prems" show ?thesis by (subst (asm) pruneLoop_unfold) simp
  next
    case False
    define st' where "st' = fst (removeEmptyPrims st tr)"
    have st': "prims st' = filter (\<lambda>(q, d). survives tr q) (prims st)"
      unfolding st'_def by (rule removeEmptyPrims_prims)
    have pair: "(st', map GetParentPath tr) = removeEmptyPrims st tr"
      unfolding st'_def using removeEmptyPrims_snd [of st tr] by (metis prod.collapse)
    from "1.prems" False have "primAt (pruneLoop dp st'
        [path \<leftarrow> map GetParentPath tr. dp \<noteq> path \<and> isEmptyPrimAt st' path]) p = Some d"
      unfolding st'_def by (subst (asm) pruneLoop_unfold) (simp add: isEmptyPrimAt_eq)
    from "1.IH" [OF False pair this] have "primAt st' p = Some d" .
    then show ?thesis
      using primAt_filter [OF st', of p] by (auto split: if_splits)
  qed
qed

lemma survives_root_prim:
  assumes "Some [n] \<notin> set tr"
  shows "survives tr (Some [n])"
  unfolding survives_def
proof (intro ballI notI)
  fix r assume r: "r \<in> set tr" "removable r \<and> HasPrefix (Some [n]) r"
  then obtain x xs where "r = Some (x # xs)"
    by (auto simp: removable_def split: option.splits list.splits)
  with r(2) have "r = Some [n]" by (auto simp: HasPrefix_def)
  with r(1) assms show False by simp
qed

lemma pruneLoop_keeps_default:
  "dp = Some [n] \<Longrightarrow> dp \<notin> set tr \<Longrightarrow> primAt (pruneLoop dp st tr) dp = primAt st dp"
proof (induction dp st tr rule: pruneLoop.induct)
  case (1 dp st tr)
  show ?case
  proof (cases "tr = []")
    case True
    then show ?thesis by (subst pruneLoop_unfold) simp
  next
    case False
    define st' where "st' = fst (removeEmptyPrims st tr)"
    have st': "prims st' = filter (\<lambda>(q, d). survives tr q) (prims st)"
      unfolding st'_def by (rule removeEmptyPrims_prims)
    have pair: "(st', map GetParentPath tr) = removeEmptyPrims st tr"
      unfolding st'_def using removeEmptyPrims_snd [of st tr] by (metis prod.collapse)
    have "dp \<notin> set [path \<leftarrow> map GetParentPath tr. dp \<noteq> path \<and> isEmptyPrimAt st' path]"
      by simp
    from "1.IH" [OF False pair "1.prems"(1) this]
    have "primAt (pruneLoop dp st tr) dp = primAt st' dp"
      using False unfolding st'_def by (subst pruneLoop_unfold) (simp add: isEmptyPrimAt_eq)
    also have "\<dots> = primAt st dp"
      using primAt_filter [OF st', of dp] survives_root_prim [of n tr] "1.prems" by simp
    finally show ?thesis .
  qed
qed

lemma isEmptyPrim_in_Traverse: "isEmptyPrim st q \<Longrightarrow> q \<in> set (Traverse st)"
  unfolding isEmptyPrim_iff Traverse_def using primAt_in_prims by auto

lemma PruneEmpties_fixed_point:
  assumes "\<not> includeEmptyTransforms args" "isEmptyPrim (PruneEmpties args st) q"
  shows "q = pruneDefaultPrimPath args"
proof -
  have "\<forall>q. isEmptyPrim st q \<and> q \<noteq> pruneDefaultPrimPath args \<longrightarrow>
          q \<in> set [prim \<leftarrow> Traverse st. pruneDefaultPrimPath args \<noteq> prim \<and> isEmptyPrim st prim]"
    using isEmptyPrim_in_Traverse by auto
  from pruneLoop_fixed_point [OF this] assms show ?thesis
    by (simp add: PruneEmpties_def Let_def)
qed

lemma PruneEmpties_primAt_mono:
  "primAt (PruneEmpties args st) p = Some d \<Longrightarrow> primAt st p = Some d"
  by (auto simp: PruneEmpties_def Let_def split: if_splits dest: pruneLoop_primAt_mono)

lemma butlast_chain:
  assumes "1 \<le> k" "k \<le> length names"
  shows "butlast (base @ take k names) = base @ take (k - 1) names"
proof -
  from assms have "take k names \<noteq> []" by (cases names) auto
  then have "butlast (base @ take k names) = base @ butlast (take k names)"
    by (simp add: butlast_append)
  also have "butlast (take k names) = take (k - 1) names"
    using assms by (simp add: butlast_take)
  finally show ?thesis .
qed

lemma PruneEmpties_removes_chain:
  assumes keep: "\<not> includeEmptyTransforms args"
    and chain: "plainContainerChain st base names"
    and ndp: "\<forall>k \<in> {1 .. length names}. chainPath base names k \<noteq> pruneDefaultPrimPath args"
    and k: "k \<in> {1 .. length names}"
  shows "primAt (PruneEmpties args st) (chainPath base names k) = None"
proof (rule ccontr)
  let ?F = "PruneEmpties args st"
  let ?S = "{i \<in> {1 .. length names}. primAt ?F (chainPath base names i) \<noteq> None}"
  assume "primAt ?F (chainPath base names k) \<noteq> None"
  with k have "k \<in> ?S" by simp
  then have ne: "?S \<noteq> {}" by blast
  have fin: "finite ?S" by simp
  define m where "m = Max ?S"
  have mS: "m \<in> ?S" unfolding m_def using Max_in [OF fin ne] .
  then have m: "1 \<le> m" "m \<le> length names" and alive: "primAt ?F (chainPath base names m) \<noteq> None"
    by auto
  from alive obtain d where dF: "primAt ?F (chainPath base names m) = Some d" by auto
  then have dst: "primAt st (chainPath base names m) = Some d"
    by (rule PruneEmpties_primAt_mono)
  from chain m have plain: "GetTypeName st (chainPath base names m) \<in> emptyTypes"
      "\<not> HasAuthoredPayloads st (chainPath base names m)"
      "\<not> HasAuthoredReferences st (chainPath base names m)"
    by (auto simp: plainContainerChain_def)
  with dst have dprops: "typeName d \<in> emptyTypes" "\<not> hasPayloads d" "references d = []"
    by (auto simp: GetTypeName_def HasAuthoredPayloads_def HasAuthoredReferences_def)
  have nokids: "\<forall>c. primAt ?F c \<noteq> None \<longrightarrow> GetParentPath c \<noteq> chainPath base names m"
  proof (intro allI impI notI)
    fix c assume c: "primAt ?F c \<noteq> None" "GetParentPath c = chainPath base names m"
    then obtain dc where "primAt ?F c = Some dc" by auto
    then have cst: "primAt st c = Some dc" by (rule PruneEmpties_primAt_mono)
    then have cT: "c \<in> set (Traverse st)"
      unfolding Traverse_def using primAt_in_prims [OF cst] by auto
    from c(2) obtain cs where cs: "c = Some cs" "cs \<noteq> []" "butlast cs = base @ take m names"
      by (auto simp: GetParentPath_def chainPath_def split: option.splits list.splits)
    from m have "take 1 names = [hd names]" by (cases names) auto
    moreover from m have "prefix (take 1 names) (take m names)"
      by (metis take_is_prefix min.absorb1 take_take)
    ultimately have "prefix (base @ take 1 names) (butlast cs)"
      using cs(3) by simp
    then have "prefix (base @ take 1 names) cs"
      using cs(2) by (metis append_butlast_last_id prefix_order.trans prefixI)
    then have "HasPrefix c (chainPath base names 1)"
      by (simp add: HasPrefix_def chainPath_def cs(1))
    with chain cT have "c \<in> chainPath base names ` {1 .. length names}"
      by (simp add: plainContainerChain_def)
    then obtain i where i: "1 \<le> i" "i \<le> length names" "c = chainPath base names i"
      by auto
    from cs i have "base @ take (i - 1) names = base @ take m names"
      using butlast_chain [OF i(1,2), of base] by (simp add: chainPath_def)
    then have "length (take (i - 1) names) = length (take m names)" by simp
    with i m have "i = Suc m" by simp
    with i c(1) have "Suc m \<in> ?S" by simp
    then have "Suc m \<le> m" unfolding m_def using Max_ge [OF fin] by blast
    then show False by simp
  qed
  from dF dprops nokids have "isEmptyPrim ?F (chainPath base names m)"
    unfolding isEmptyPrim_iff by blast
  from PruneEmpties_fixed_point [OF keep this] ndp m show False by auto
qed






section \<open>Beginning the write: properties\<close>

lemma andThen_Inl [simp]: "andThen (Inl e) f = Inl e"
  by (simp add: andThen_def)

lemma andThen_Inr [simp]: "andThen (Inr x) f = f x"
  by (simp add: andThen_def)

lemma andThen_eq_Inr: "andThen m f = Inr y \<longleftrightarrow> (\<exists>x. m = Inr x \<and> f x = Inr y)"
  by (cases m) auto

lemma chooseDefaultPrim_form:
  "chooseDefaultPrim env j
     = j\<lparr>mArgs := (mArgs j)\<lparr>defaultPrim := defaultPrim (mArgs (chooseDefaultPrim env j))\<rparr>\<rparr>"
  by (simp add: chooseDefaultPrim_def split: list.splits)

lemma normalizeDefaultPrim_form:
  "normalizeDefaultPrim env j
     = j\<lparr>mArgs := (mArgs j)\<lparr>defaultPrim := defaultPrim (mArgs (normalizeDefaultPrim env j))\<rparr>\<rparr>"
  by (simp add: normalizeDefaultPrim_def)

lemma prepared_form:
  "normalizeDefaultPrim env (chooseDefaultPrim env j)
     = j\<lparr>mArgs := (mArgs j)\<lparr>defaultPrim :=
            defaultPrim (mArgs (normalizeDefaultPrim env (chooseDefaultPrim env j)))\<rparr>\<rparr>"
  by (simp add: normalizeDefaultPrim_def chooseDefaultPrim_def split: list.splits)

lemma rel_sym:
  "isAncestorDescendentRelationship p q = isAncestorDescendentRelationship q p"
  by (auto simp: isAncestorDescendentRelationship_def)

lemma overlapWith_Some:
  "overlapWith p ps = Some (a, b) \<Longrightarrow> a = p \<and> b \<in> set ps \<and> isAncestorDescendentRelationship a b"
  by (induction ps) (auto split: if_splits)

lemma overlapWith_None:
  "overlapWith p ps = None \<longleftrightarrow> (\<forall>q \<in> set ps. \<not> isAncestorDescendentRelationship p q)"
  by (induction ps) auto

lemma findOverlap_Some:
  "findOverlap ps = Some (a, b) \<Longrightarrow>
     a \<in> set ps \<and> b \<in> set ps \<and> isAncestorDescendentRelationship a b"
  by (induction ps) (auto split: option.splits dest: overlapWith_Some)

lemma findOverlap_finds:
  "p \<in> set ps \<Longrightarrow> q \<in> set ps \<Longrightarrow> p \<noteq> q \<Longrightarrow> isAncestorDescendentRelationship p q \<Longrightarrow>
     findOverlap ps \<noteq> None"
proof (induction ps)
  case Nil
  then show ?case by simp
next
  case (Cons x xs)
  show ?case
  proof (cases "overlapWith x xs")
    case (Some found)
    then show ?thesis by simp
  next
    case None
    then have no: "\<forall>y \<in> set xs. \<not> isAncestorDescendentRelationship x y"
      by (simp add: overlapWith_None)
    with Cons.prems rel_sym [of q p] have "p \<in> set xs" "q \<in> set xs" by auto
    with Cons None show ?thesis by simp
  qed
qed

lemma beginPrologue_overlap:
  assumes "findOverlap (dagPaths (mArgs j)) = Some (a, b)"
  shows "\<exists>d. beginPrologue env fileName appendFlag j
           = Inl (RootOverlap a b, j\<lparr>mArgs := (mArgs j)\<lparr>defaultPrim := d\<rparr>\<rparr>)"
proof -
  define d where "d = defaultPrim (mArgs (normalizeDefaultPrim env (chooseDefaultPrim env j)))"
  have d: "normalizeDefaultPrim env (chooseDefaultPrim env j)
      = j\<lparr>mArgs := (mArgs j)\<lparr>defaultPrim := d\<rparr>\<rparr>"
    unfolding d_def by (rule prepared_form)
  have "beginPrologue env fileName appendFlag j
           = Inl (RootOverlap a b, j\<lparr>mArgs := (mArgs j)\<lparr>defaultPrim := d\<rparr>\<rparr>)"
    unfolding beginPrologue_def d using assms by (simp add: checkRootOverlap_def)
  then show ?thesis by blast
qed




lemma sameSetup_refl [simp]: "sameSetup j j"
  by (simp add: sameSetup_def)

lemma sameSetup_trans: "sameSetup j j' \<Longrightarrow> sameSetup j' j'' \<Longrightarrow> sameSetup j j''"
  by (auto simp: sameSetup_def)

lemma sameSetup_logEvent [simp]: "sameSetup j (logEvent e j)"
  by (simp add: sameSetup_def logEvent_def)

lemma sameSetup_callExt [simp]: "sameSetup j (callExt env e j)"
  by (simp add: sameSetup_def callExt_def)

lemma sameSetup_setCurrentRenderLayer [simp]: "sameSetup j (setCurrentRenderLayer n j)"
  by (simp add: sameSetup_def setCurrentRenderLayer_def)

lemma sameSetup_setupStage: "sameSetup j (setupStage env j)"
  by (simp add: sameSetup_def setupStage_def Let_def logEvent_def setCurrentRenderLayer_def
        split: list.splits)

lemma setupStage_mStage [simp]: "mStage (setupStage env j) = mStage j"
  by (simp add: setupStage_def Let_def logEvent_def setCurrentRenderLayer_def split: list.splits)

lemma CheckNameClashes_sameSetup:
  "CheckNameClashes env path dagPath j = Inr j' \<Longrightarrow> sameSetup j j'"
  by (auto simp: CheckNameClashes_def sameSetup_def split: if_splits option.splits)

lemma writeDefault_sameSetup: "writeDefault env w j = Inr j' \<Longrightarrow> sameSetup j j'"
  by (auto simp: writeDefault_def andThen_eq_Inr Let_def sameSetup_def callExt_def
        split: if_splits dest!: CheckNameClashes_sameSetup)

lemma exportNode_sameSetup: "exportNode env cur j = Inr (pruned, j') \<Longrightarrow> sameSetup j j'"
  by (auto simp: exportNode_def andThen_eq_Inr Let_def sameSetup_def callExt_def
        split: if_splits option.splits dest!: writeDefault_sameSetup dest: append_prefixD)

lemma visitNode_sameSetup:
  "visitNode env sets cur (leaf, j) = Inr (pruned, leaf', j') \<Longrightarrow> sameSetup j j'"
  by (cases sets)
     (auto simp: visitNode_def andThen_eq_Inr split: if_splits dest: exportNode_sameSetup)

lemma visit_sameSetup:
  "visitDag env sets cur node s = Inr s' \<Longrightarrow> sameSetup (snd s) (snd s')"
  "visitDags env sets par nodes s = Inr s' \<Longrightarrow> sameSetup (snd s) (snd s')"
proof (induction env sets cur node s and env sets par nodes s arbitrary: s' and s'
        rule: visitDag_visitDags.induct)
  case (1 env sets curDagPath name children s)
  obtain leaf j where s: "s = (leaf, j)" by (cases s)
  from "1.prems" obtain pruned leaf1 j1 where
    v: "visitNode env sets curDagPath s = Inr (pruned, leaf1, j1)"
    by (auto split: sum.splits prod.splits)
  then have a: "sameSetup (snd s) j1" unfolding s by (auto dest: visitNode_sameSetup)
  show ?case
  proof (cases pruned)
    case True
    with "1.prems" v have "s' = (leaf1, j1)" by simp
    with a show ?thesis by simp
  next
    case False
    with "1.prems" v have "visitDags env sets curDagPath children (leaf1, j1) = Inr s'" by simp
    from "1.IH" [OF v refl False this] a show ?thesis
      by (auto intro: sameSetup_trans)
  qed
next
  case (2 env sets parentPath s)
  then show ?case by simp
next
  case (3 env sets parentPath child rest s)
  from "3.prems" obtain s1 where
    v: "visitDag env sets (parentPath @ [nodeName child]) child s = Inr s1"
    and r: "visitDags env sets parentPath rest s1 = Inr s'"
    by (auto split: sum.splits)
  from "3.IH"(1) [OF v] "3.IH"(2) [OF v r] show ?case
    by (rule sameSetup_trans)
qed

lemma traverseDag_sameSetup: "traverseDag env j = Inr j' \<Longrightarrow> sameSetup j j'"
  by (auto simp: traverseDag_def andThen_eq_Inr dest: visit_sameSetup(1))

lemma createChasers_sameSetup: "sameSetup j (createChasers env names j)"
proof (induction names arbitrary: j)
  case Nil
  then show ?case by simp
next
  case (Cons n names)
  have "sameSetup j (case chaserRegistryCreate env n of
          Some fn \<Rightarrow> j\<lparr>mChasers := mChasers j @ [fn]\<rparr>
        | None \<Rightarrow> logEvent (Report (FailedToCreateChaser n)) j)"
    by (simp add: sameSetup_def logEvent_def split: option.splits)
  with Cons show ?case by (auto intro: sameSetup_trans)
qed

lemma chasersExportDefault_sameSetup:
  "chasersExportDefault env cs j = Inr j' \<Longrightarrow> sameSetup j j'"
proof (induction cs arbitrary: j)
  case Nil
  then show ?case by simp
next
  case (Cons c cs)
  from Cons.prems have "chasersExportDefault env cs (callExt env (ChaserExportDefault (chaserName c)) j) = Inr j'"
    by (auto simp: Let_def split: if_splits)
  from Cons.IH [OF this] show ?case
    by (auto intro: sameSetup_trans [OF sameSetup_callExt])
qed

lemma beginEpilogue_sameSetup: "beginEpilogue env j = Inr j' \<Longrightarrow> sameSetup j j'"
proof -
  assume a: "beginEpilogue env j = Inr j'"
  then obtain j8 where p: "postProcessStage env j = Inr j8" and c: "populateChasers env j8 = Inr j'"
    by (auto simp: beginEpilogue_def andThen_eq_Inr checkRootIntersection_def split: if_splits)
  from p have 1: "sameSetup j j8"
    by (auto simp: postProcessStage_def Let_def sameSetup_def callExt_def split: if_splits)
  have "sameSetup j8 (j8\<lparr>mChasers := []\<rparr>)" by (simp add: sameSetup_def)
  from sameSetup_trans [OF this
      createChasers_sameSetup [of "j8\<lparr>mChasers := []\<rparr>" env "chaserNames (mArgs j8)"]]
  have 2: "sameSetup j8 (createChasers env (chaserNames (mArgs j8)) (j8\<lparr>mChasers := []\<rparr>))" .
  from c have 3: "sameSetup (createChasers env (chaserNames (mArgs j8)) (j8\<lparr>mChasers := []\<rparr>)) j'"
    by (auto simp: populateChasers_def Let_def dest: chasersExportDefault_sameSetup)
  from 1 2 3 show ?thesis by (blast intro: sameSetup_trans)
qed

lemma BeginWriting_Inr:
  "BeginWriting env fileName appendFlag j = Inr j' \<Longrightarrow>
     \<exists>j5. beginPrologue env fileName appendFlag j = Inr j5 \<and> sameSetup j5 j'"
  by (auto simp: BeginWriting_def andThen_eq_Inr
        dest!: traverseDag_sameSetup beginEpilogue_sameSetup intro: sameSetup_trans)

lemma resolveFileName_prepared [simp]:
  "resolveFileName env ((mArgs j)\<lparr>defaultPrim := d\<rparr>) fileName = resolveFileName env (mArgs j) fileName"
  by (simp add: resolveFileName_def Let_def)

lemma beginPrologue_unfold:
  "beginPrologue env fileName appendFlag j =
     (let j1 = j\<lparr>mArgs := (mArgs j)\<lparr>defaultPrim :=
                  defaultPrim (mArgs (normalizeDefaultPrim env (chooseDefaultPrim env j)))\<rparr>\<rparr>
      in case findOverlap (dagPaths (mArgs j)) of
           Some (a, b) \<Rightarrow> Inl (RootOverlap a b, j1)
         | None \<Rightarrow>
             andThen (setupFileStructure env appendFlag (resolveFileName env (mArgs j) fileName) j1)
               (\<lambda>j3. andThen (setupModelingVariant env j3)
                 (\<lambda>j4. andThen (openFile env appendFlag j4)
                   (\<lambda>j5. Inr (setupStage env j5)))))"
  unfolding beginPrologue_def
  by (subst prepared_form) (simp add: Let_def checkRootOverlap_def split: option.splits)

lemma setupFileStructure_cases:
  "setupFileStructure env appendFlag (ext, name) j =
     (if ext = UsdFileExtensionPackage then
        (if appendFlag then Inl (CannotAppendToPackage, j)
         else if MakeTmpStageName env (TfGetPathName env name) \<in> set (files j)
         then Inl (TemporaryStageExists (MakeTmpStageName env (TfGetPathName env name)),
                   j\<lparr>mFileName := MakeTmpStageName env (TfGetPathName env name)\<rparr>)
         else Inr (j\<lparr>mFileName := MakeTmpStageName env (TfGetPathName env name),
                     mPackageName := name\<rparr>))
      else Inr (j\<lparr>mFileName := name, mPackageName := []\<rparr>))"
  by (simp add: setupFileStructure_def Let_def)

text \<open>
  C10.  With the modeling-variant render layer mode, more than one render layer in the
  scene and an export-root mapping configured, \<open>_BeginWriting\<close> fails before the layer is
  opened (no call has been recorded and the stage is as before); when neither the
  root-overlap check nor the package set-up fails first, the error is the one about
  export roots and modeling variants.
\<close>

theorem export_roots_exclude_modeling_variant:
  assumes "renderLayerMode (mArgs j) = modelingVariant"
    and "length (listAllRenderLayers env) > 1"
    and "\<not> rootMapFunctionIsNull (mArgs j)"
  shows "\<exists>e j'. BeginWriting env fileName appendFlag j = Inl (e, j')
           \<and> mStage j' = mStage j \<and> trace j' = trace j
           \<and> (findOverlap (dagPaths (mArgs j)) = None
               \<and> \<not> (fst (resolveFileName env (mArgs j) fileName) = UsdFileExtensionPackage
                     \<and> (appendFlag
                         \<or> MakeTmpStageName env
                              (TfGetPathName env (snd (resolveFileName env (mArgs j) fileName)))
                            \<in> set (files j)))
               \<longrightarrow> e = ExportRootsWithModelingVariant)"
proof -
  obtain ext name where r: "resolveFileName env (mArgs j) fileName = (ext, name)"
    by (cases "resolveFileName env (mArgs j) fileName")
  have mv: "setupModelingVariant env j3
              = Inl (ExportRootsWithModelingVariant, j3\<lparr>mRenderLayerObjs := listAllRenderLayers env\<rparr>)"
    if "renderLayerMode (mArgs j3) = modelingVariant" "\<not> rootMapFunctionIsNull (mArgs j3)" for j3
    using that assms(2) by (simp add: setupModelingVariant_def Let_def)
  show ?thesis
    unfolding BeginWriting_def beginPrologue_unfold r setupFileStructure_cases Let_def
    using assms(1,3) by (auto simp: mv split: option.splits)
qed

theorem export_roots_exclude_modeling_variant_witness:
  "renderLayerMode (mArgs variantRootsJob) = modelingVariant
   \<and> length (listAllRenderLayers twoLayersEnv) > 1
   \<and> \<not> rootMapFunctionIsNull (mArgs variantRootsJob)
   \<and> (\<exists>j'. BeginWriting twoLayersEnv ''scene.usd'' False variantRootsJob
              = Inl (ExportRootsWithModelingVariant, j')
            \<and> mStage j' = None \<and> trace j' = [])"
proof -
  have 1: "renderLayerMode (mArgs variantRootsJob) = modelingVariant"
    and 3: "\<not> rootMapFunctionIsNull (mArgs variantRootsJob)"
    by (simp_all add: variantRootsJob_def)
  have 2: "length (listAllRenderLayers twoLayersEnv) > 1"
    by (simp add: twoLayersEnv_def)
  have 4: "findOverlap (dagPaths (mArgs variantRootsJob)) = None"
    by (simp add: variantRootsJob_def plainArgs_def)
  have 5: "fst (resolveFileName twoLayersEnv (mArgs variantRootsJob) ''scene.usd'') \<noteq> UsdFileExtensionPackage"
    by (simp add: resolveFileName_def Let_def twoLayersEnv_def plainEnv_def lastSuffix_def
          IsAnonymousLayerIdentifier_def UsdFileExtensionDefault_def UsdFileExtensionPackage_def)
  have 6: "mStage variantRootsJob = None" "trace variantRootsJob = []"
    by (simp_all add: variantRootsJob_def plainJob_def)
  from export_roots_exclude_modeling_variant [OF 1 2 3, of "''scene.usd''" False] 4 5 6 1 2 3
  show ?thesis by auto
qed

lemmas job_defs = BeginWriting_def beginPrologue_def beginEpilogue_def chooseDefaultPrim_def
  normalizeDefaultPrim_def GetExportDefaultPrimCandidates_def checkRootOverlap_def
  resolveFileName_def setupFileStructure_def setupModelingVariant_def openFile_def
  setupStage_def traverseDag_def visitNode_def exportNode_def writeDefault_def
  checkRootIntersection_def postProcessStage_def populateChasers_def hasParent_def
  logEvent_def callExt_def setCurrentRenderLayer_def Let_def IsEmpty_def
  IsAnonymousLayerIdentifier_def GetFallbackExtension_def MakeTmpStageName_def
  UsdFileExtensionDefault_def UsdFileExtensionASCII_def UsdFileExtensionCrate_def
  UsdFileExtensionPackage_def appleArKit_def modelingVariant_def currentLayer_def

lemmas example_defs = plainEnv_def plainJob_def plainArgs_def lastSuffix_def defaultLayer_def
  emptyStage_def


lemma beginPrologue_Inr:
  assumes p: "beginPrologue env fileName appendFlag j = Inr j5"
    and r: "resolveFileName env (mArgs j) fileName = (ext, name)"
  shows "defaultPrim (mArgs j5)
           = defaultPrim (mArgs (normalizeDefaultPrim env (chooseDefaultPrim env j)))"
    and "mFileName j5 = (if ext = UsdFileExtensionPackage
                         then MakeTmpStageName env (TfGetPathName env name) else name)"
    and "mPackageName j5 = (if ext = UsdFileExtensionPackage then name else [])"
    and "ext = UsdFileExtensionPackage \<longrightarrow>
           \<not> appendFlag \<and> MakeTmpStageName env (TfGetPathName env name) \<notin> set (files j)"
    and "prefix (trace j @ [OpenFile (mFileName j5) appendFlag]) (trace j5)"
proof -
  define j1 where "j1 = j\<lparr>mArgs := (mArgs j)\<lparr>defaultPrim :=
                  defaultPrim (mArgs (normalizeDefaultPrim env (chooseDefaultPrim env j)))\<rparr>\<rparr>"
  from p obtain j3 j4 j5' where
    s3: "setupFileStructure env appendFlag (ext, name) j1 = Inr j3"
    and s4: "setupModelingVariant env j3 = Inr j4"
    and s5: "openFile env appendFlag j4 = Inr j5'"
    and s6: "j5 = setupStage env j5'"
    unfolding beginPrologue_unfold r Let_def j1_def [symmetric]
    by (auto simp: andThen_eq_Inr split: option.splits)
  from s3 have f3: "mArgs j3 = mArgs j1" "trace j3 = trace j" "files j3 = files j"
      "mFileName j3 = (if ext = UsdFileExtensionPackage
                       then MakeTmpStageName env (TfGetPathName env name) else name)"
      "mPackageName j3 = (if ext = UsdFileExtensionPackage then name else [])"
      "ext = UsdFileExtensionPackage \<longrightarrow>
         \<not> appendFlag \<and> MakeTmpStageName env (TfGetPathName env name) \<notin> set (files j)"
    unfolding setupFileStructure_cases by (auto simp: j1_def split: if_splits)
  from s4 have f4: "defaultPrim (mArgs j4) = defaultPrim (mArgs j3)" "trace j4 = trace j3"
      "mFileName j4 = mFileName j3" "mPackageName j4 = mPackageName j3"
    by (auto simp: setupModelingVariant_def Let_def split: if_splits)
  from s5 have f5: "mArgs j5' = mArgs j4" "mFileName j5' = mFileName j4"
      "mPackageName j5' = mPackageName j4"
      "trace j5' = trace j4 @ [OpenFile (mFileName j4) appendFlag]"
    by (auto simp: openFile_def Let_def logEvent_def split: option.splits)
  from sameSetup_setupStage [of j5' env] have f6: "mArgs j5 = mArgs j5'"
      "mFileName j5 = mFileName j5'" "mPackageName j5 = mPackageName j5'"
      "prefix (trace j5') (trace j5)"
    unfolding s6 by (auto simp: sameSetup_def)
  show "defaultPrim (mArgs j5)
           = defaultPrim (mArgs (normalizeDefaultPrim env (chooseDefaultPrim env j)))"
    using f3 f4 f5 f6 by (simp add: j1_def)
  show "mFileName j5 = (if ext = UsdFileExtensionPackage
                         then MakeTmpStageName env (TfGetPathName env name) else name)"
    using f3 f4 f5 f6 by simp
  show "mPackageName j5 = (if ext = UsdFileExtensionPackage then name else [])"
    using f3 f4 f5 f6 by simp
  show "ext = UsdFileExtensionPackage \<longrightarrow>
           \<not> appendFlag \<and> MakeTmpStageName env (TfGetPathName env name) \<notin> set (files j)"
    using f3 by simp
  show "prefix (trace j @ [OpenFile (mFileName j5) appendFlag]) (trace j5)"
    using f3 f4 f5 f6 by simp
qed

lemma BeginWriting_Inr_fields:
  assumes b: "BeginWriting env fileName appendFlag j = Inr j'"
    and r: "resolveFileName env (mArgs j) fileName = (ext, name)"
  shows "defaultPrim (mArgs j')
           = defaultPrim (mArgs (normalizeDefaultPrim env (chooseDefaultPrim env j)))"
    and "mFileName j' = (if ext = UsdFileExtensionPackage
                         then MakeTmpStageName env (TfGetPathName env name) else name)"
    and "mPackageName j' = (if ext = UsdFileExtensionPackage then name else [])"
    and "ext = UsdFileExtensionPackage \<longrightarrow>
           \<not> appendFlag \<and> MakeTmpStageName env (TfGetPathName env name) \<notin> set (files j)"
    and "prefix (trace j @ [OpenFile (mFileName j') appendFlag]) (trace j')"
proof -
  from BeginWriting_Inr [OF b] obtain j5 where
    p: "beginPrologue env fileName appendFlag j = Inr j5" and s: "sameSetup j5 j'" by blast
  note f = beginPrologue_Inr [OF p r]
  from s have e: "mArgs j' = mArgs j5" "mFileName j' = mFileName j5"
      "mPackageName j' = mPackageName j5" "prefix (trace j5) (trace j')"
    by (auto simp: sameSetup_def)
  show "defaultPrim (mArgs j')
           = defaultPrim (mArgs (normalizeDefaultPrim env (chooseDefaultPrim env j)))"
    using f(1) e by simp
  show "mFileName j' = (if ext = UsdFileExtensionPackage
                         then MakeTmpStageName env (TfGetPathName env name) else name)"
    using f(2) e by simp
  show "mPackageName j' = (if ext = UsdFileExtensionPackage then name else [])"
    using f(3) e by simp
  show "ext = UsdFileExtensionPackage \<longrightarrow>
           \<not> appendFlag \<and> MakeTmpStageName env (TfGetPathName env name) \<notin> set (files j)"
    using f(4) .
  show "prefix (trace j @ [OpenFile (mFileName j') appendFlag]) (trace j')"
    using f(5) e by (auto intro: prefix_order.trans)
qed

text \<open>
  C9.  With no root prim given, the candidates for the default prim are the non-empty
  entries of the export roots, in order; when there is none, they are the answer of the
  scene query.  When candidates are derived (no default prim given, not the legacy
  material scope), the first non-empty export root is chosen as default prim, and after
  a successful \<open>_BeginWriting\<close> the default prim is the prim name made from it.
\<close>

theorem default_prim_candidates_skip_empty:
  assumes "IsEmpty (rootPrim (mArgs j))"
  shows "GetExportDefaultPrimCandidates env (mArgs j)
           = (if [root \<leftarrow> exportRoots (mArgs j). root \<noteq> []] = []
              then executePythonCommand env (candidatesCommand (mArgs j))
              else [root \<leftarrow> exportRoots (mArgs j). root \<noteq> []])
         \<and> (\<not> legacyMaterialScope (mArgs j) \<and> defaultPrim (mArgs j) = []
              \<and> find (\<lambda>root. root \<noteq> []) (exportRoots (mArgs j)) = Some r
            \<longrightarrow> defaultPrim (mArgs (chooseDefaultPrim env j)) = r
                \<and> (\<forall>j'. BeginWriting env fileName appendFlag j = Inr j' \<longrightarrow>
                          defaultPrim (mArgs j')
                            = MayaNodeNameToPrimName env r (stripNamespaces (mArgs j))))"
proof (intro conjI impI allI)
  show c: "GetExportDefaultPrimCandidates env (mArgs j)
           = (if [root \<leftarrow> exportRoots (mArgs j). root \<noteq> []] = []
              then executePythonCommand env (candidatesCommand (mArgs j))
              else [root \<leftarrow> exportRoots (mArgs j). root \<noteq> []])"
    using assms by (auto simp: GetExportDefaultPrimCandidates_def Let_def)
  assume h: "\<not> legacyMaterialScope (mArgs j) \<and> defaultPrim (mArgs j) = []
              \<and> find (\<lambda>root. root \<noteq> []) (exportRoots (mArgs j)) = Some r"
  then have "\<exists>rs. [root \<leftarrow> exportRoots (mArgs j). root \<noteq> []] = r # rs"
  proof -
    have "find P xs = Some r \<Longrightarrow> \<exists>rs. filter P xs = r # rs" for P and xs :: "string list"
      by (induction xs) (auto split: if_splits)
    with h show ?thesis by blast
  qed
  then obtain rs where rs: "[root \<leftarrow> exportRoots (mArgs j). root \<noteq> []] = r # rs" by blast
  from h have rne: "r \<noteq> []" by (auto simp: find_Some_iff)
  show ch: "defaultPrim (mArgs (chooseDefaultPrim env j)) = r"
    using h by (simp add: chooseDefaultPrim_def c rs)
  fix j' assume b: "BeginWriting env fileName appendFlag j = Inr j'"
  obtain ext name where r: "resolveFileName env (mArgs j) fileName = (ext, name)"
    by (cases "resolveFileName env (mArgs j) fileName")
  have "stripNamespaces (mArgs (chooseDefaultPrim env j)) = stripNamespaces (mArgs j)"
    by (subst chooseDefaultPrim_form) simp
  with ch rne have "defaultPrim (mArgs (normalizeDefaultPrim env (chooseDefaultPrim env j)))
      = MayaNodeNameToPrimName env r (stripNamespaces (mArgs j))"
    by (simp add: normalizeDefaultPrim_def)
  with BeginWriting_Inr_fields(1) [OF b r]
  show "defaultPrim (mArgs j') = MayaNodeNameToPrimName env r (stripNamespaces (mArgs j))"
    by simp
qed

theorem default_prim_candidates_skip_empty_witness:
  "IsEmpty (rootPrim (mArgs exportRootsJob))
   \<and> \<not> legacyMaterialScope (mArgs exportRootsJob) \<and> defaultPrim (mArgs exportRootsJob) = []
   \<and> find (\<lambda>root. root \<noteq> []) (exportRoots (mArgs exportRootsJob)) = Some ''grp''
   \<and> GetExportDefaultPrimCandidates plainEnv (mArgs exportRootsJob) = [''grp'', ''lamp'']
   \<and> defaultPrim (mArgs (chooseDefaultPrim plainEnv exportRootsJob)) = ''grp''
   \<and> (case BeginWriting plainEnv ''scene.usd'' False exportRootsJob of
         Inl e \<Rightarrow> False
       | Inr j' \<Rightarrow> defaultPrim (mArgs j') = ''grp'')"
proof -
  have 1: "IsEmpty (rootPrim (mArgs exportRootsJob))"
    by (simp add: exportRootsJob_def plainArgs_def IsEmpty_def)
  have 2: "\<not> legacyMaterialScope (mArgs exportRootsJob) \<and> defaultPrim (mArgs exportRootsJob) = []
       \<and> find (\<lambda>root. root \<noteq> []) (exportRoots (mArgs exportRootsJob)) = Some ''grp''"
    by (simp add: exportRootsJob_def plainArgs_def)
  have 3: "[root \<leftarrow> exportRoots (mArgs exportRootsJob). root \<noteq> []] = [''grp'', ''lamp'']"
    by (simp add: exportRootsJob_def)
  have 4: "MayaNodeNameToPrimName plainEnv ''grp'' (stripNamespaces (mArgs exportRootsJob)) = ''grp''"
    by (simp add: plainEnv_def)
  have 5: "\<exists>j'. BeginWriting plainEnv ''scene.usd'' False exportRootsJob = Inr j'"
    by (simp add: job_defs example_defs exportRootsJob_def)
  note inst = default_prim_candidates_skip_empty [OF 1, of plainEnv "''grp''" "''scene.usd''" False]
  from inst 3 have a: "GetExportDefaultPrimCandidates plainEnv (mArgs exportRootsJob) = [''grp'', ''lamp'']"
    by simp
  from inst 2 have b: "defaultPrim (mArgs (chooseDefaultPrim plainEnv exportRootsJob)) = ''grp''"
    by blast
  from inst 2 4 have c: "\<forall>j'. BeginWriting plainEnv ''scene.usd'' False exportRootsJob = Inr j' \<longrightarrow>
                          defaultPrim (mArgs j') = ''grp''"
    by simp
  with 5 have d: "(case BeginWriting plainEnv ''scene.usd'' False exportRootsJob of
         Inl e \<Rightarrow> False
       | Inr j' \<Rightarrow> defaultPrim (mArgs j') = ''grp'')"
    by auto
  from 1 2 a b d show ?thesis by simp
qed

text \<open>
  C7, as stated, fails for an anonymous layer identifier: it has no recognized extension,
  yet it is used as given and the layer is opened under that very name.
\<close>

theorem anonymous_identifier_counterexample:
  "TfGetExtension plainEnv ''anon:scene''
        \<notin> {UsdFileExtensionDefault, UsdFileExtensionASCII, UsdFileExtensionCrate,
            UsdFileExtensionPackage}
   \<and> resolveFileName plainEnv (mArgs plainJob) ''anon:scene'' = ([], ''anon:scene'')
   \<and> (case BeginWriting plainEnv ''anon:scene'' False plainJob of
         Inl e \<Rightarrow> False
       | Inr j' \<Rightarrow> mFileName j' = ''anon:scene''
                  \<and> mFileName j' \<noteq> ''anon:scene'' @ ''.''
                                       @ GetFallbackExtension (compatibility (mArgs plainJob))
                  \<and> OpenFile ''anon:scene'' False \<in> set (trace j'))"
  by (simp add: job_defs example_defs)

text \<open>
  C7, amended.  A destination that is not an anonymous layer identifier and has no
  recognized extension gets the fallback extension of the compatibility profile appended
  (the package extension for ARKit, the default one otherwise); an anonymous identifier or
  a name with a recognized extension is used as given.  When the resolved extension is
  the package one, append mode makes \<open>_BeginWriting\<close> fail before anything is opened;
  without append mode the layer opened is the temporary one named from the UUID, which
  did not exist, and the package name is kept apart.  With any other extension the layer
  opened is the resolved name and no package name is kept.
\<close>

theorem file_extension_dispatch:
  assumes r: "resolveFileName env (mArgs j) fileName = (ext, name)"
    and tmp: "tmp = TfStringCatPaths env (TfGetPathName env name)
                      (''tmp-'' @ uuidString env @ ''.'' @ UsdFileExtensionCrate)"
  shows "(\<not> IsAnonymousLayerIdentifier fileName
          \<and> TfGetExtension env fileName
               \<notin> {UsdFileExtensionDefault, UsdFileExtensionASCII, UsdFileExtensionCrate,
                   UsdFileExtensionPackage}
          \<longrightarrow> name = fileName @ ''.'' @ ext
              \<and> ext = (if compatibility (mArgs j) = appleArKit then UsdFileExtensionPackage
                       else UsdFileExtensionDefault))
       \<and> (IsAnonymousLayerIdentifier fileName
          \<or> TfGetExtension env fileName
               \<in> {UsdFileExtensionDefault, UsdFileExtensionASCII, UsdFileExtensionCrate,
                   UsdFileExtensionPackage}
          \<longrightarrow> name = fileName \<and> ext = TfGetExtension env fileName)
       \<and> (ext = UsdFileExtensionPackage \<and> appendFlag \<longrightarrow>
            (\<exists>e j'. BeginWriting env fileName appendFlag j = Inl (e, j')
                \<and> mStage j' = mStage j \<and> trace j' = trace j
                \<and> (findOverlap (dagPaths (mArgs j)) = None \<longrightarrow> e = CannotAppendToPackage)))
       \<and> (ext = UsdFileExtensionPackage \<and> \<not> appendFlag \<longrightarrow>
            (\<forall>j'. BeginWriting env fileName appendFlag j = Inr j' \<longrightarrow>
                tmp \<notin> set (files j) \<and> mFileName j' = tmp \<and> mPackageName j' = name
                \<and> prefix (trace j @ [OpenFile tmp False]) (trace j')))
       \<and> (ext \<noteq> UsdFileExtensionPackage \<longrightarrow>
            (\<forall>j'. BeginWriting env fileName appendFlag j = Inr j' \<longrightarrow>
                mFileName j' = name \<and> mPackageName j' = []
                \<and> prefix (trace j @ [OpenFile name appendFlag]) (trace j')))"
proof (intro conjI impI allI)
  assume "\<not> IsAnonymousLayerIdentifier fileName
          \<and> TfGetExtension env fileName
               \<notin> {UsdFileExtensionDefault, UsdFileExtensionASCII, UsdFileExtensionCrate,
                   UsdFileExtensionPackage}"
  with r show "name = fileName @ ''.'' @ ext"
    and "ext = (if compatibility (mArgs j) = appleArKit then UsdFileExtensionPackage
                else UsdFileExtensionDefault)"
    by (auto simp: resolveFileName_def Let_def GetFallbackExtension_def)
next
  assume "IsAnonymousLayerIdentifier fileName
          \<or> TfGetExtension env fileName
               \<in> {UsdFileExtensionDefault, UsdFileExtensionASCII, UsdFileExtensionCrate,
                   UsdFileExtensionPackage}"
  with r show "name = fileName" and "ext = TfGetExtension env fileName"
    by (auto simp: resolveFileName_def Let_def)
next
  assume "ext = UsdFileExtensionPackage \<and> appendFlag"
  then show "\<exists>e j'. BeginWriting env fileName appendFlag j = Inl (e, j')
                \<and> mStage j' = mStage j \<and> trace j' = trace j
                \<and> (findOverlap (dagPaths (mArgs j)) = None \<longrightarrow> e = CannotAppendToPackage)"
    unfolding BeginWriting_def beginPrologue_unfold r setupFileStructure_cases Let_def
    by (auto split: option.splits)
next
  fix j'
  assume e: "ext = UsdFileExtensionPackage \<and> \<not> appendFlag"
    and b: "BeginWriting env fileName appendFlag j = Inr j'"
  note f = BeginWriting_Inr_fields [OF b r]
  from e f(2) show m: "mFileName j' = tmp" by (simp add: tmp MakeTmpStageName_def)
  from e f(3) show "mPackageName j' = name" by simp
  from e f(4) show "tmp \<notin> set (files j)" by (simp add: tmp MakeTmpStageName_def)
  from e f(5) m show "prefix (trace j @ [OpenFile tmp False]) (trace j')" by simp
next
  fix j'
  assume e: "ext \<noteq> UsdFileExtensionPackage"
    and b: "BeginWriting env fileName appendFlag j = Inr j'"
  note f = BeginWriting_Inr_fields [OF b r]
  from e f(2) show m: "mFileName j' = name" by simp
  from e f(3) show "mPackageName j' = []" by simp
  from f(5) m show "prefix (trace j @ [OpenFile name appendFlag]) (trace j')" by simp
qed

theorem file_extension_dispatch_witness:
  "resolveFileName plainEnv (mArgs arkitJob) ''scene'' = (''usdz'', ''scene.usdz'')
   \<and> \<not> IsAnonymousLayerIdentifier ''scene''
   \<and> TfGetExtension plainEnv ''scene''
        \<notin> {UsdFileExtensionDefault, UsdFileExtensionASCII, UsdFileExtensionCrate,
            UsdFileExtensionPackage}
   \<and> compatibility (mArgs arkitJob) = appleArKit
   \<and> (\<exists>e j'. BeginWriting plainEnv ''scene'' True arkitJob = Inl (e, j')
          \<and> mStage j' = None \<and> trace j' = [] \<and> e = CannotAppendToPackage)
   \<and> (case BeginWriting plainEnv ''scene'' False arkitJob of
         Inl e \<Rightarrow> False
       | Inr j' \<Rightarrow> mFileName j' = ''tmp-0000.usdc'' \<and> mPackageName j' = ''scene.usdz''
                  \<and> prefix [OpenFile ''tmp-0000.usdc'' False] (trace j'))
   \<and> resolveFileName plainEnv (mArgs plainJob) ''scene'' = (''usd'', ''scene.usd'')
   \<and> (case BeginWriting plainEnv ''scene'' True plainJob of
         Inl e \<Rightarrow> False
       | Inr j' \<Rightarrow> mFileName j' = ''scene.usd'' \<and> mPackageName j' = []
                  \<and> prefix [OpenFile ''scene.usd'' True] (trace j'))"
proof -
  have r: "resolveFileName plainEnv (mArgs arkitJob) ''scene'' = (''usdz'', ''scene.usdz'')"
    by (simp add: job_defs example_defs arkitJob_def)
  have r2: "resolveFileName plainEnv (mArgs plainJob) ''scene'' = (''usd'', ''scene.usd'')"
    by (simp add: job_defs example_defs)
  have t: "''tmp-0000.usdc'' = TfStringCatPaths plainEnv (TfGetPathName plainEnv ''scene.usdz'')
                      (''tmp-'' @ uuidString plainEnv @ ''.'' @ UsdFileExtensionCrate)"
    by (simp add: plainEnv_def UsdFileExtensionCrate_def)
  have t2: "''tmp-0000.usdc'' = TfStringCatPaths plainEnv (TfGetPathName plainEnv ''scene.usd'')
                      (''tmp-'' @ uuidString plainEnv @ ''.'' @ UsdFileExtensionCrate)"
    by (simp add: plainEnv_def UsdFileExtensionCrate_def)
  have a: "\<not> IsAnonymousLayerIdentifier ''scene''"
    by (simp add: IsAnonymousLayerIdentifier_def)
  have x: "TfGetExtension plainEnv ''scene''
        \<notin> {UsdFileExtensionDefault, UsdFileExtensionASCII, UsdFileExtensionCrate,
            UsdFileExtensionPackage}"
    by (simp add: job_defs example_defs)
  have c: "compatibility (mArgs arkitJob) = appleArKit" by (simp add: arkitJob_def)
  have p: "''usdz'' = UsdFileExtensionPackage" "''usd'' \<noteq> UsdFileExtensionPackage"
    by (simp_all add: UsdFileExtensionPackage_def)
  have s: "mStage arkitJob = None" "trace arkitJob = []" "trace plainJob = []"
      "findOverlap (dagPaths (mArgs arkitJob)) = None"
    by (simp_all add: arkitJob_def plainJob_def plainArgs_def)
  have ok: "\<exists>j'. BeginWriting plainEnv ''scene'' False arkitJob = Inr j'"
    by (simp add: job_defs example_defs arkitJob_def)
  have ok2: "\<exists>j'. BeginWriting plainEnv ''scene'' True plainJob = Inr j'"
    by (simp add: job_defs example_defs)
  from file_extension_dispatch [OF r t, of True] p s
  have 1: "\<exists>e j'. BeginWriting plainEnv ''scene'' True arkitJob = Inl (e, j')
          \<and> mStage j' = None \<and> trace j' = [] \<and> e = CannotAppendToPackage"
    by auto
  from file_extension_dispatch [OF r t, of False] p s ok
  have 2: "(case BeginWriting plainEnv ''scene'' False arkitJob of
         Inl e \<Rightarrow> False
       | Inr j' \<Rightarrow> mFileName j' = ''tmp-0000.usdc'' \<and> mPackageName j' = ''scene.usdz''
                  \<and> prefix [OpenFile ''tmp-0000.usdc'' False] (trace j'))"
    by auto
  from file_extension_dispatch [OF r2 t2, of True] p s ok2
  have 3: "(case BeginWriting plainEnv ''scene'' True plainJob of
         Inl e \<Rightarrow> False
       | Inr j' \<Rightarrow> mFileName j' = ''scene.usd'' \<and> mPackageName j' = []
                  \<and> prefix [OpenFile ''scene.usd'' True] (trace j'))"
    by auto
  from r a x c 1 2 r2 3 show ?thesis by simp
qed

section \<open>Name clashes: properties\<close>

lemma visitDags_append:
  "visitDags env sets par (before @ rest) s =
     (case visitDags env sets par before s of
        Inl e \<Rightarrow> Inl e
      | Inr s1 \<Rightarrow> visitDags env sets par rest s1)"
  by (induction before arbitrary: s) (auto split: sum.splits)

lemma visits_error:
  assumes "visits env sets start target"
    and "visitDag env sets (fst target) (fst (snd target)) (snd (snd target)) = Inl x"
  shows "visitDag env sets (fst start) (fst (snd start)) (snd (snd start)) = Inl x"
  using assms
proof (induction rule: visits.induct)
  case (visits_here start)
  then show ?case by simp
next
  case (visits_below cur s s1 before s2 child target name after)
  from visits_below.IH [OF visits_below.prems]
  have "visitDag env sets (cur @ [nodeName child]) child s2 = Inl x" by simp
  with visits_below.hyps(1,2) show ?case
    by (cases s1) (simp add: visitDags_append)
qed

text \<open>
  C2.  With namespace stripping disabled the check allows and registers nothing.  With
  stripping enabled, a path not yet registered is registered and allowed; a path already
  registered for another node is allowed exactly when transform and shape are merged and
  both nodes extend to the same shape, and is otherwise rejected with the error naming
  both nodes.  When that rejection happens at a node the traversal reaches, \<open>Write\<close> fails
  with that error.
\<close>

theorem name_clash_check:
  "(\<not> stripNamespaces (mArgs j) \<longrightarrow> CheckNameClashes env path dagPath j = Inr j)
   \<and> (stripNamespaces (mArgs j) \<and> map_of (mUsdPathToDagPathMap j) path = None \<longrightarrow>
        CheckNameClashes env path dagPath j
          = Inr (j\<lparr>mUsdPathToDagPathMap := mUsdPathToDagPathMap j @ [(path, dagPath)]\<rparr>))
   \<and> (stripNamespaces (mArgs j) \<and> map_of (mUsdPathToDagPathMap j) path = Some other \<longrightarrow>
        CheckNameClashes env path dagPath j
          = (if mergeTransformAndShape (mArgs j)
                \<and> extendToShape env other = extendToShape env dagPath
             then Inr j else Inl (NameClash other dagPath, j)))
   \<and> (beginPrologue env fileName appendFlag j0 = Inr j5
       \<and> visits env (collectArgDagPaths env (dagPaths (mArgs j5)) ([], []))
            ([], dagWorld env, (None, j5)) (cur, node, (leaf, j))
       \<and> (cur \<in> set (snd (collectArgDagPaths env (dagPaths (mArgs j5)) ([], [])))
           \<or> cur \<in> set (fst (collectArgDagPaths env (dagPaths (mArgs j5)) ([], [])))
           \<or> hasParent cur leaf)
       \<and> (NeedToTraverse env cur \<or> cur = [])
       \<and> createPrimWriterResult env cur = Some w \<and> IsValid (GetUsdPrim w)
       \<and> stripNamespaces (mArgs j)
       \<and> map_of (mUsdPathToDagPathMap j) (GetUsdPrim w) = Some other
       \<and> \<not> (mergeTransformAndShape (mArgs j)
             \<and> extendToShape env other = extendToShape env (GetDagPath w))
       \<longrightarrow> (\<exists>j'. Write env fileName appendFlag j0 = Inl (NameClash other (GetDagPath w), j')))"
proof (intro conjI impI)
  show "CheckNameClashes env path dagPath j = Inr j" if "\<not> stripNamespaces (mArgs j)"
    using that by (simp add: CheckNameClashes_def)
  show "CheckNameClashes env path dagPath j
          = Inr (j\<lparr>mUsdPathToDagPathMap := mUsdPathToDagPathMap j @ [(path, dagPath)]\<rparr>)"
    if "stripNamespaces (mArgs j) \<and> map_of (mUsdPathToDagPathMap j) path = None"
    using that by (simp add: CheckNameClashes_def)
  show "CheckNameClashes env path dagPath j
          = (if mergeTransformAndShape (mArgs j)
                \<and> extendToShape env other = extendToShape env dagPath
             then Inr j else Inl (NameClash other dagPath, j))"
    if "stripNamespaces (mArgs j) \<and> map_of (mUsdPathToDagPathMap j) path = Some other"
    using that by (simp add: CheckNameClashes_def)
next
  let ?sets = "collectArgDagPaths env (dagPaths (mArgs j5)) ([], [])"
  assume h: "beginPrologue env fileName appendFlag j0 = Inr j5
       \<and> visits env ?sets ([], dagWorld env, (None, j5)) (cur, node, (leaf, j))
       \<and> (cur \<in> set (snd ?sets) \<or> cur \<in> set (fst ?sets) \<or> hasParent cur leaf)
       \<and> (NeedToTraverse env cur \<or> cur = [])
       \<and> createPrimWriterResult env cur = Some w \<and> IsValid (GetUsdPrim w)
       \<and> stripNamespaces (mArgs j)
       \<and> map_of (mUsdPathToDagPathMap j) (GetUsdPrim w) = Some other
       \<and> \<not> (mergeTransformAndShape (mArgs j)
             \<and> extendToShape env other = extendToShape env (GetDagPath w))"
  define jw where "jw = (callExt env (CreatePrimWriter cur) j)
                          \<lparr>mMayaPrimWriterList :=
                             mMayaPrimWriterList (callExt env (CreatePrimWriter cur) j) @ [w]\<rparr>"
  have "CheckNameClashes env (GetUsdPrim w) (GetDagPath w) jw
          = Inl (NameClash other (GetDagPath w), jw)"
    using h by (auto simp: CheckNameClashes_def jw_def callExt_def)
  with h have "exportNode env cur j = Inl (NameClash other (GetDagPath w), jw)"
    by (auto simp: exportNode_def writeDefault_def Let_def jw_def)
  with h have "visitNode env ?sets cur (leaf, j) = Inl (NameClash other (GetDagPath w), jw)"
    by (cases ?sets) (auto simp: visitNode_def)
  then have "visitDag env ?sets cur node (leaf, j) = Inl (NameClash other (GetDagPath w), jw)"
    by (cases node) simp
  with h visits_error [of env ?sets "([], dagWorld env, (None, j5))" "(cur, node, (leaf, j))"]
  have "visitDag env ?sets [] (dagWorld env) (None, j5) = Inl (NameClash other (GetDagPath w), jw)"
    by simp
  then have "traverseDag env j5 = Inl (NameClash other (GetDagPath w), jw)"
    by (simp add: traverseDag_def)
  with h have "Write env fileName appendFlag j0 = Inl (NameClash other (GetDagPath w), jw)"
    by (simp add: Write_def BeginWriting_def)
  then show "\<exists>j'. Write env fileName appendFlag j0 = Inl (NameClash other (GetDagPath w), j')"
    by blast
qed


theorem name_clash_check_witness:
  "stripNamespaces (mArgs clashJob)
   \<and> \<not> stripNamespaces (mArgs plainJob)
   \<and> CheckNameClashes clashEnv (Some [''cube'']) [''ns2:cube''] plainJob = Inr plainJob
   \<and> CheckNameClashes clashEnv (Some [''cube'']) [''ns1:cube''] clashJob
        = Inr (clashJob\<lparr>mUsdPathToDagPathMap := [(Some [''cube''], [''ns1:cube''])]\<rparr>)
   \<and> CheckNameClashes clashEnv (Some [''cube'']) [''ns2:cube'']
        (clashJob\<lparr>mUsdPathToDagPathMap := [(Some [''cube''], [''ns1:cube''])]\<rparr>)
        = Inl (NameClash [''ns1:cube''] [''ns2:cube''],
               clashJob\<lparr>mUsdPathToDagPathMap := [(Some [''cube''], [''ns1:cube''])]\<rparr>)
   \<and> (\<exists>j'. Write clashEnv ''scene.usd'' False clashJob
               = Inl (NameClash [''ns1:cube''] [''ns2:cube''], j'))"
proof -
  note defs = job_defs example_defs clashJob_def clashEnv_def CheckNameClashes_def
    climbParents.simps cubeWriter_def IsValid_def isAncestorDescendentRelationship_def
  let ?reg = "clashJob\<lparr>mUsdPathToDagPathMap := [(Some [''cube''], [''ns1:cube''])]\<rparr>"
  have st1: "stripNamespaces (mArgs clashJob)" and st2: "\<not> stripNamespaces (mArgs plainJob)"
    by (simp_all add: clashJob_def plainJob_def plainArgs_def)
  have m0: "map_of (mUsdPathToDagPathMap clashJob) (Some [''cube'']) = None"
    "mUsdPathToDagPathMap clashJob = []"
    by (simp_all add: clashJob_def plainJob_def)
  have m1: "stripNamespaces (mArgs ?reg)"
    "map_of (mUsdPathToDagPathMap ?reg) (Some [''cube'']) = Some [''ns1:cube'']"
    "extendToShape clashEnv [''ns1:cube''] \<noteq> extendToShape clashEnv [''ns2:cube'']"
    by (simp_all add: clashJob_def clashEnv_def plainEnv_def)
  from name_clash_check [of plainJob clashEnv "Some [''cube'']" "[''ns2:cube'']"] st2
  have a: "CheckNameClashes clashEnv (Some [''cube'']) [''ns2:cube''] plainJob = Inr plainJob"
    by blast
  from name_clash_check [of clashJob clashEnv "Some [''cube'']" "[''ns1:cube'']"] st1 m0
  have b: "CheckNameClashes clashEnv (Some [''cube'']) [''ns1:cube''] clashJob = Inr ?reg"
    by simp
  from name_clash_check [of ?reg clashEnv "Some [''cube'']" "[''ns2:cube'']" "[''ns1:cube'']"] m1
  have c: "CheckNameClashes clashEnv (Some [''cube'']) [''ns2:cube''] ?reg
             = Inl (NameClash [''ns1:cube''] [''ns2:cube''], ?reg)"
    by simp
  define j5 where "j5 = projr (beginPrologue clashEnv ''scene.usd'' False clashJob)"
  have p: "beginPrologue clashEnv ''scene.usd'' False clashJob = Inr j5"
    unfolding j5_def by (simp add: defs)
  have args5: "dagPaths (mArgs j5) = [[''ns1:cube''], [''ns2:cube'']]"
    unfolding j5_def by (simp add: defs)
  define sets where "sets = collectArgDagPaths clashEnv (dagPaths (mArgs j5)) ([], [])"
  have sets: "sets = ([[''ns2:cube''], [''ns1:cube'']], [[]])"
    unfolding sets_def args5 by (simp add: defs)
  define s1 where "s1 = snd (projr (visitNode clashEnv sets [] (None, j5)))"
  have v1: "visitNode clashEnv sets [] (None, j5) = Inr (False, s1)"
    unfolding s1_def sets j5_def by (simp add: defs)
  define s2 where "s2 = projr (visitDags clashEnv sets [] [MDag ''ns1:cube'' []] s1)"
  have v2: "visitDags clashEnv sets [] [MDag ''ns1:cube'' []] s1 = Inr s2"
    unfolding s2_def s1_def sets j5_def by (simp add: defs)
  have f2: "stripNamespaces (mArgs (snd s2))"
    "map_of (mUsdPathToDagPathMap (snd s2)) (Some [''cube'']) = Some [''ns1:cube'']"
    unfolding s2_def s1_def sets j5_def by (simp_all add: defs)
  have vis: "visits clashEnv sets ([], dagWorld clashEnv, (None, j5))
               ([''ns2:cube''], MDag ''ns2:cube'' [], (fst s2, snd s2))"
  proof -
    have w: "dagWorld clashEnv = MDag [] ([MDag ''ns1:cube'' []] @ MDag ''ns2:cube'' [] # [])"
      by (simp add: clashEnv_def)
    have "visits clashEnv sets ([] @ [nodeName (MDag ''ns2:cube'' [])], MDag ''ns2:cube'' [], s2)
            ([''ns2:cube''], MDag ''ns2:cube'' [], (fst s2, snd s2))"
      by (simp add: visits_here)
    from visits_below [OF v1 v2 this] show ?thesis unfolding w .
  qed
  have scope: "[''ns2:cube''] \<in> set (fst sets)" by (simp add: sets)
  have wr: "createPrimWriterResult clashEnv [''ns2:cube''] = Some (cubeWriter [''ns2:cube''])"
    "IsValid (GetUsdPrim (cubeWriter [''ns2:cube'']))"
    "NeedToTraverse clashEnv [''ns2:cube'']"
    "GetUsdPrim (cubeWriter [''ns2:cube'']) = Some [''cube'']"
    "GetDagPath (cubeWriter [''ns2:cube'']) = [''ns2:cube'']"
    by (simp_all add: clashEnv_def plainEnv_def cubeWriter_def IsValid_def)
  from name_clash_check [of "snd s2" clashEnv "Some [''cube'']" "[''ns2:cube'']" "[''ns1:cube'']"
      "''scene.usd''" False clashJob j5 "[''ns2:cube'']" "MDag ''ns2:cube'' []" "fst s2"
      "cubeWriter [''ns2:cube'']"]
    p vis scope wr f2 m1(3)
  have d: "\<exists>j'. Write clashEnv ''scene.usd'' False clashJob
               = Inl (NameClash [''ns1:cube''] [''ns2:cube''], j')"
    unfolding sets_def by simp
  from st1 st2 a b c d show ?thesis by blast
qed

section \<open>Writing frames: properties\<close>

lemma sameJob_refl [simp]: "sameJob j j"
  by (simp add: sameJob_def)

lemma sameJob_trans: "sameJob j j' \<Longrightarrow> sameJob j' j'' \<Longrightarrow> sameJob j j''"
  by (auto simp: sameJob_def)

lemma sameJob_logEvent [simp]: "sameJob j (logEvent e j)"
  by (simp add: sameJob_def logEvent_def)

lemma sameJob_callExt [simp]: "sameJob j (callExt env e j)"
  by (simp add: sameJob_def callExt_def)

lemma sameJob_viewFrame [simp]: "sameJob j (viewFrame t j)"
  by (simp add: sameJob_def viewFrame_def)

lemma sameJob_setCurrentRenderLayer [simp]: "sameJob j (setCurrentRenderLayer n j)"
  by (simp add: sameJob_def setCurrentRenderLayer_def)

lemma trace_callExt [simp]: "trace (callExt env e j) = trace j @ [e]"
  by (simp add: callExt_def)

lemma trace_logEvent [simp]: "trace (logEvent e j) = trace j @ [e]"
  by (simp add: logEvent_def)

lemma trace_viewFrame [simp]: "trace (viewFrame t j) = trace j @ [ViewFrame t]"
  by (simp add: viewFrame_def)

lemma writersWrite_effect:
  "sameJob j (writersWrite env t ws j)
   \<and> sceneTime (writersWrite env t ws j) = sceneTime j
   \<and> trace (writersWrite env t ws j) = trace j @ frameWrites t ws"
proof (induction ws arbitrary: j)
  case Nil
  then show ?case by (simp add: frameWrites_def)
next
  case (Cons w ws)
  show ?case
  proof (cases "IsValid (GetUsdPrim w)")
    case True
    from Cons [of "callExt env (PrimWriterWrite (GetDagPath w) (Some t)) j"] True
    show ?thesis
      by (auto simp: frameWrites_def callExt_def
            intro: sameJob_trans [OF sameJob_callExt [unfolded callExt_def]])
  next
    case False
    with Cons [of j] show ?thesis by (simp add: frameWrites_def)
  qed
qed

lemma chasersExportFrame_ok:
  "\<forall>c \<in> set cs. ExportFrame c t \<Longrightarrow>
     \<exists>j'. chasersExportFrame env t cs j = Inr j' \<and> sameJob j j' \<and> sceneTime j' = sceneTime j
          \<and> trace j' = trace j @ frameChasers t cs"
proof (induction cs arbitrary: j)
  case Nil
  then show ?case by (simp add: frameChasers_def)
next
  case (Cons c cs)
  let ?j1 = "callExt env (ChaserExportFrame (chaserName c) t) j"
  from Cons.prems have "\<forall>c \<in> set cs. ExportFrame c t" and c: "ExportFrame c t" by auto
  from Cons.IH [OF this(1), of ?j1] obtain j' where
    j': "chasersExportFrame env t cs ?j1 = Inr j'" "sameJob ?j1 j'" "sceneTime j' = sceneTime ?j1"
      "trace j' = trace ?j1 @ frameChasers t cs"
    by blast
  have "sameJob j j'" using sameJob_trans [OF sameJob_callExt j'(2)] .
  with j' c show ?case
    by (simp add: Let_def frameChasers_def) (simp add: callExt_def)
qed

lemma chasersExportFrame_fail:
  "m < length cs \<Longrightarrow> \<forall>c \<in> set (take m cs). ExportFrame c t \<Longrightarrow> \<not> ExportFrame (cs ! m) t \<Longrightarrow>
     \<exists>j'. chasersExportFrame env t cs j = Inl (ChaserExportFrameFailed (chaserName (cs ! m)), j')
          \<and> sameJob j j' \<and> sceneTime j' = sceneTime j
          \<and> trace j' = trace j @ frameChasers t (take (Suc m) cs)"
proof (induction cs arbitrary: j m)
  case Nil
  then show ?case by simp
next
  case (Cons c cs)
  let ?j1 = "callExt env (ChaserExportFrame (chaserName c) t) j"
  show ?case
  proof (cases m)
    case 0
    with Cons.prems have "\<not> ExportFrame c t" by simp
    with 0 show ?thesis by (simp add: Let_def frameChasers_def) (simp add: callExt_def)
  next
    case (Suc n)
    with Cons.prems have n: "n < length cs" "\<forall>c \<in> set (take n cs). ExportFrame c t"
        "\<not> ExportFrame (cs ! n) t" and c: "ExportFrame c t"
      by auto
    from Cons.IH [OF n, of ?j1] obtain j' where
      j': "chasersExportFrame env t cs ?j1 = Inl (ChaserExportFrameFailed (chaserName (cs ! n)), j')"
        "sameJob ?j1 j'" "sceneTime j' = sceneTime ?j1"
        "trace j' = trace ?j1 @ frameChasers t (take (Suc n) cs)"
      by blast
    have "sameJob j j'" using sameJob_trans [OF sameJob_callExt j'(2)] .
    with j' c Suc show ?thesis
      by (simp add: Let_def frameChasers_def) (simp add: callExt_def)
  qed
qed

lemma PerFrameCallback_effect:
  "sameJob j (PerFrameCallback j) \<and> sceneTime (PerFrameCallback j) = sceneTime j
   \<and> trace (PerFrameCallback j) = trace j @ frameCallbacks (mArgs j)"
  by (simp add: PerFrameCallback_def Let_def frameCallbacks_def sameJob_def logEvent_def)

lemma frame_ok:
  assumes "\<forall>c \<in> set (mChasers j). ExportFrame c t"
  shows "\<exists>j'. WriteFrame env t (viewFrame t j) = Inr j' \<and> sameJob j j'
           \<and> trace j' = trace j @ frameEvents j t"
proof -
  let ?j0 = "viewFrame t j"
  let ?j1 = "writersWrite env t (mMayaPrimWriterList ?j0) ?j0"
  note w = writersWrite_effect [of ?j0 env t "mMayaPrimWriterList ?j0"]
  have s1: "sameJob j ?j1" using sameJob_trans [OF sameJob_viewFrame] w by blast
  then have ch: "mChasers ?j1 = mChasers j" "mMayaPrimWriterList ?j0 = mMayaPrimWriterList j"
    by (auto simp: sameJob_def viewFrame_def)
  from assms ch have "\<forall>c \<in> set (mChasers ?j1). ExportFrame c t" by simp
  from chasersExportFrame_ok [OF this, of env ?j1] obtain j2 where
    j2: "chasersExportFrame env t (mChasers ?j1) ?j1 = Inr j2" "sameJob ?j1 j2"
      "trace j2 = trace ?j1 @ frameChasers t (mChasers ?j1)"
    by blast
  have s2: "sameJob j j2" using sameJob_trans [OF s1 j2(2)] .
  note p = PerFrameCallback_effect [of j2]
  have s3: "sameJob j (PerFrameCallback j2)" using sameJob_trans [OF s2] p by blast
  have "WriteFrame env t ?j0 = Inr (PerFrameCallback j2)"
    using j2(1) by (simp add: WriteFrame_def Let_def)
  moreover have "trace (PerFrameCallback j2) = trace j @ frameEvents j t"
    using p j2(3) w ch s2 by (simp add: frameEvents_def sameJob_def)
  ultimately show ?thesis using s3 by blast
qed

lemma frame_fail:
  assumes "m < length (mChasers j)" "\<forall>c \<in> set (take m (mChasers j)). ExportFrame c t"
    "\<not> ExportFrame (mChasers j ! m) t"
  shows "\<exists>j'. WriteFrame env t (viewFrame t j)
                 = Inl (ChaserExportFrameFailed (chaserName (mChasers j ! m)), j')
           \<and> sameJob j j'
           \<and> trace j' = trace j @ ViewFrame t # frameWrites t (mMayaPrimWriterList j)
                           @ frameChasers t (take (Suc m) (mChasers j))"
proof -
  let ?j0 = "viewFrame t j"
  let ?j1 = "writersWrite env t (mMayaPrimWriterList ?j0) ?j0"
  note w = writersWrite_effect [of ?j0 env t "mMayaPrimWriterList ?j0"]
  have s1: "sameJob j ?j1" using sameJob_trans [OF sameJob_viewFrame] w by blast
  then have ch: "mChasers ?j1 = mChasers j" "mMayaPrimWriterList ?j0 = mMayaPrimWriterList j"
    by (auto simp: sameJob_def viewFrame_def)
  from assms ch have a: "m < length (mChasers ?j1)"
      "\<forall>c \<in> set (take m (mChasers ?j1)). ExportFrame c t" "\<not> ExportFrame (mChasers ?j1 ! m) t"
    by simp_all
  from chasersExportFrame_fail [OF a, of env ?j1] obtain j2 where
    j2: "chasersExportFrame env t (mChasers ?j1) ?j1
           = Inl (ChaserExportFrameFailed (chaserName (mChasers ?j1 ! m)), j2)"
      "sameJob ?j1 j2"
      "trace j2 = trace ?j1 @ frameChasers t (take (Suc m) (mChasers ?j1))"
    by blast
  have s2: "sameJob j j2" using sameJob_trans [OF s1 j2(2)] .
  have "WriteFrame env t ?j0 = Inl (ChaserExportFrameFailed (chaserName (mChasers j ! m)), j2)"
    using j2(1) ch by (simp add: WriteFrame_def Let_def)
  moreover have "trace j2 = trace j @ ViewFrame t # frameWrites t (mMayaPrimWriterList j)
                           @ frameChasers t (take (Suc m) (mChasers j))"
    using j2(3) w ch by simp
  ultimately show ?thesis using s2 by blast
qed

lemma frameEvents_sameJob: "sameJob j j' \<Longrightarrow> frameEvents j' = frameEvents j"
  by (auto simp: frameEvents_def sameJob_def fun_eq_iff)

lemma frameLoop_frames:
  assumes "\<forall>s \<in> set pre. \<forall>c \<in> set (mChasers j). ExportFrame c s"
    and "\<forall>i \<in> {Suc n .. n + length pre}. \<not> isInterruptRequested env i"
  shows "\<exists>j'. sameJob j j' \<and> trace j' = trace j @ concat (map (frameEvents j) pre)
           \<and> frameLoop env old n (pre @ rest) j = frameLoop env old (n + length pre) rest j'"
  using assms
proof (induction pre arbitrary: j n)
  case Nil
  have "sameJob j j \<and> trace j = trace j @ concat (map (frameEvents j) [])
           \<and> frameLoop env old n ([] @ rest) j = frameLoop env old (n + length []) rest j"
    by simp
  then show ?case by blast
next
  case (Cons s pre)
  from Cons.prems(1) have "\<forall>c \<in> set (mChasers j). ExportFrame c s" by simp
  from frame_ok [OF this, of env] obtain j1 where
    j1: "WriteFrame env s (viewFrame s j) = Inr j1" "sameJob j j1"
      "trace j1 = trace j @ frameEvents j s"
    by blast
  from Cons.prems(2) have ni: "\<not> isInterruptRequested env (Suc n)" by simp
  from j1(2) Cons.prems(1) have a: "\<forall>s \<in> set pre. \<forall>c \<in> set (mChasers j1). ExportFrame c s"
    by (simp add: sameJob_def)
  from Cons.prems(2) have b: "\<forall>i \<in> {Suc (Suc n) .. Suc n + length pre}. \<not> isInterruptRequested env i"
    by simp
  from Cons.IH [OF a b] obtain j' where
    j': "sameJob j1 j'" "trace j' = trace j1 @ concat (map (frameEvents j1) pre)"
      "frameLoop env old (Suc n) (pre @ rest) j1 = frameLoop env old (Suc n + length pre) rest j'"
    by blast
  have "sameJob j j'" using sameJob_trans [OF j1(2) j'(1)] .
  moreover have "trace j' = trace j @ concat (map (frameEvents j) (s # pre))"
    using j'(2) j1(3) frameEvents_sameJob [OF j1(2)] by simp
  moreover have "frameLoop env old n ((s # pre) @ rest) j
                   = frameLoop env old (n + length (s # pre)) rest j'"
    using j1(1) ni j'(3) by simp
  ultimately show ?case by blast
qed

lemma beginPrologue_stage:
  "beginPrologue env fileName appendFlag j = Inr j5 \<Longrightarrow> mStage j5 \<noteq> None"
  unfolding beginPrologue_def Let_def
  by (auto simp: andThen_eq_Inr openFile_def Let_def split: option.splits)

lemma BeginWriting_stage:
  "BeginWriting env fileName appendFlag j = Inr j' \<Longrightarrow> mStage j' \<noteq> None"
  using BeginWriting_Inr [of env fileName appendFlag j j'] beginPrologue_stage
  by (auto simp: sameSetup_def)

lemma Write_after_begin:
  assumes "BeginWriting env fileName appendFlag j0 = Inr j1" "timeSamples (mArgs j1) \<noteq> []"
  shows "Write env fileName appendFlag j0 =
           (case frameLoop env (sceneTime j1) 0 (timeSamples (mArgs j1)) j1 of
              Inl e \<Rightarrow> Inl e
            | Inr j2 \<Rightarrow> FinishWriting env (viewFrame (sceneTime j1) j2))"
  using assms by (simp add: Write_def Let_def andThen_def split: sum.splits)


lemmas frames_defs = job_defs example_defs framesJob_def framesEnv_def cancelEnv_def
  CheckNameClashes_def climbParents.simps cubeWriter_def nullWriter_def IsValid_def
  isAncestorDescendentRelationship_def steadyChaser_def pickyChaser_def



section \<open>Finishing: properties\<close>

lemma quiet_refl [simp]: "quiet j j"
  by (simp add: quiet_def)

lemma quiet_trans: "quiet j j' \<Longrightarrow> quiet j' j'' \<Longrightarrow> quiet j j''"
  by (fastforce simp: quiet_def)

lemma quiet_events:
  "trace j' = trace j @ es \<Longrightarrow> \<forall>e \<in> set es. \<not> isFrameHook e \<Longrightarrow> quiet j j'"
  by (auto simp: quiet_def)

lemma calm_refl [simp]: "calm j j"
  by (simp add: calm_def)

lemma calm_trans: "calm j j' \<Longrightarrow> calm j' j'' \<Longrightarrow> calm j j''"
  by (auto simp: calm_def intro: sameJob_trans quiet_trans)

lemma calm_callExt: "\<not> isFrameHook e \<Longrightarrow> calm j (callExt env e j)"
  by (simp add: calm_def quiet_events [of _ _ "[e]"])

lemma calm_logEvent: "\<not> isFrameHook e \<Longrightarrow> calm j (logEvent e j)"
  by (simp add: calm_def quiet_events [of _ _ "[e]"])

lemma calm_setCurrentRenderLayer: "calm j (setCurrentRenderLayer n j)"
  by (simp add: calm_def quiet_events [of _ _ "[SetCurrentRenderLayer n]"]
        setCurrentRenderLayer_def sameJob_def)

lemma calm_stage: "calm j (j\<lparr>mStage := map_option f (mStage j)\<rparr>)"
  by (simp add: calm_def sameJob_def quiet_def)

lemma calm_extras: "calm j (j\<lparr>mExtrasPrimsPaths := x\<rparr>)"
  by (simp add: calm_def sameJob_def quiet_def)

lemma renderLayersLoop_calm:
  "renderLayersLoop env vroot layers (d, j) = (d', j') \<Longrightarrow> calm j j'"
proof (induction layers arbitrary: d j)
  case Nil
  then show ?case by simp
next
  case (Cons l layers)
  let ?j1 = "setCurrentRenderLayer (layerName l) j"
  let ?ap = "layerActivePaths env ?j1 vroot (listMembers l)"
  let ?j2 = "if ?ap \<noteq> [] then ?j1\<lparr>mStage := map_option
                 (authorVariant env vroot (layerName l) ?ap) (mStage ?j1)\<rparr> else ?j1"
  have "calm ?j1 ?j2" using calm_stage [of ?j1] by simp
  with calm_setCurrentRenderLayer [of j "layerName l"] have c: "calm j ?j2"
    by (rule calm_trans)
  from Cons.prems have "renderLayersLoop env vroot layers
      (if l = defaultRenderLayer env then layerName l else d, ?j2) = (d', j')"
    by (simp add: Let_def)
  from Cons.IH [OF this] c show ?case by (rule calm_trans [rotated])
qed

lemma WriteVariants_calm:
  assumes "WriteVariants env usdRootPrim j = Inr (tok, j')"
  shows "calm j j'"
proof -
  from assms obtain vroot where v: "variantRootPrimPath j = Inr vroot"
    by (auto simp: WriteVariants_def andThen_eq_Inr)
  let ?j1 = "j\<lparr>mStage := map_option
                    (\<lambda>st. SetActive (SetActive (AddInternalReference (DefinePrim st vroot)
                             vroot usdRootPrim) vroot True) usdRootPrim False) (mStage j)\<rparr>"
  obtain d j2 where l: "renderLayersLoop env vroot (mRenderLayerObjs ?j1) ([], ?j1) = (d, j2)"
    by (cases "renderLayersLoop env vroot (mRenderLayerObjs ?j1) ([], ?j1)")
  with assms v have j': "j' = j2\<lparr>mStage := map_option (selectDefaultVariant vroot d) (mStage j2)\<rparr>"
    by (simp add: WriteVariants_def Let_def)
  from calm_trans [OF calm_stage renderLayersLoop_calm [OF l]] have "calm j j2" .
  from calm_trans [OF this calm_stage] show ?thesis unfolding j' .
qed

lemma WriteVariants_succeeds:
  "succeeded (variantRootPrimPath j) \<Longrightarrow> \<exists>tok j'. WriteVariants env usdRootPrim j = Inr (tok, j')"
  by (cases "variantRootPrimPath j")
     (auto simp: WriteVariants_def succeeded_def Let_def split: prod.splits)

lemma writersPostExport_calm: "calm j (writersPostExport env ws j)"
proof (induction ws arbitrary: j)
  case Nil
  then show ?case by simp
next
  case (Cons w ws)
  have "calm j (callExt env (PrimWriterPostExport (GetDagPath w)) j)"
    by (rule calm_callExt) simp
  from calm_trans [OF this Cons] show ?case by simp
qed

lemma chasersPostExport_calm: "chasersPostExport env cs j = Inr j' \<Longrightarrow> calm j j'"
proof (induction cs arbitrary: j)
  case Nil
  then show ?case by simp
next
  case (Cons c cs)
  let ?j1 = "callExt env (ChaserPostExport (chaserName c)) j"
  let ?j2 = "?j1\<lparr>mExtrasPrimsPaths := mExtrasPrimsPaths ?j1 @ GetExtraPrimsPaths c\<rparr>"
  from Cons.prems have "chasersPostExport env cs ?j2 = Inr j'"
    by (auto simp: Let_def split: if_splits)
  from Cons.IH [OF this] have a: "calm ?j2 j'" .
  have "calm j ?j1" by (rule calm_callExt) simp
  from calm_trans [OF calm_trans [OF this calm_extras] a] show ?case .
qed

lemma chasersPostExport_ok:
  "\<forall>c \<in> set cs. PostExport c \<Longrightarrow> \<exists>j'. chasersPostExport env cs j = Inr j'"
  by (induction cs arbitrary: j) (auto simp: Let_def)

lemma PostCallback_calm: "calm j (PostCallback j)"
  unfolding PostCallback_def Let_def
  by (auto intro!: calm_trans [OF calm_logEvent calm_logEvent] calm_logEvent)

lemma restoreRenderLayer_calm: "calm j (restoreRenderLayer j)"
  by (simp add: restoreRenderLayer_def calm_setCurrentRenderLayer)

lemma authorUnits_calm: "calm j (authorUnits env j)"
  unfolding authorUnits_def Let_def
  by (auto intro!: calm_trans [OF calm_logEvent calm_logEvent] calm_logEvent)

lemma authorDefaultPrim_calm: "calm j (authorDefaultPrim p tok j)"
  unfolding authorDefaultPrim_def by (auto intro!: calm_logEvent)

lemma FinishWriting_Inr:
  assumes "FinishWriting env j = Inr j'"
  shows "\<exists>jp. calm j jp \<and> mStage j \<noteq> None \<and> j' = persistAndRelease env jp"
proof -
  from assms obtain st where st: "mStage j = Some st"
    by (cases "mStage j") (auto simp: FinishWriting_def)
  define root where "root = (case GetAllChildren st (Some []) of [] \<Rightarrow> None | p # ps \<Rightarrow> p)"
  from assms st obtain tok j1 j4 where
    a: "(if IsValid root \<and> length (mRenderLayerObjs j) > 1
            \<and> \<not> IsEmpty (usdModelRootOverridePath (mArgs j))
         then WriteVariants env root j
         else Inr (case GetAllChildren st (Some []) of [] \<Rightarrow> [] | p # ps \<Rightarrow> GetName p, j))
        = Inr (tok, j1)"
    and b: "chasersPostExport env
              (mChasers ((writersPostExport env
                 (mMayaPrimWriterList (authorDefaultPrim root tok (authorUnits env (restoreRenderLayer j1))))
                 (authorDefaultPrim root tok (authorUnits env (restoreRenderLayer j1))))
                 \<lparr>mExtrasPrimsPaths := []\<rparr>))
              ((writersPostExport env
                 (mMayaPrimWriterList (authorDefaultPrim root tok (authorUnits env (restoreRenderLayer j1))))
                 (authorDefaultPrim root tok (authorUnits env (restoreRenderLayer j1))))
                 \<lparr>mExtrasPrimsPaths := []\<rparr>) = Inr j4"
    and c: "j' = persistAndRelease env (PostCallback j4)"
    unfolding FinishWriting_def root_def
    by (auto simp: Let_def andThen_eq_Inr split: prod.splits)
  from a have 1: "calm j j1" by (auto split: if_splits dest: WriteVariants_calm)
  let ?j2 = "authorDefaultPrim root tok (authorUnits env (restoreRenderLayer j1))"
  have 2: "calm j1 ?j2"
    by (rule calm_trans [OF restoreRenderLayer_calm calm_trans [OF authorUnits_calm authorDefaultPrim_calm]])
  let ?j3 = "(writersPostExport env (mMayaPrimWriterList ?j2) ?j2)\<lparr>mExtrasPrimsPaths := []\<rparr>"
  have 3: "calm ?j2 ?j3" by (rule calm_trans [OF writersPostExport_calm calm_extras])
  from b have 4: "calm ?j3 j4" by (rule chasersPostExport_calm)
  have "calm j (PostCallback j4)"
    by (rule calm_trans [OF 1 calm_trans [OF 2 calm_trans [OF 3 calm_trans [OF 4 PostCallback_calm]]]])
  with c st show ?thesis by auto
qed

lemma FinishWriting_succeeds:
  assumes st: "mStage j \<noteq> None" and post: "\<forall>c \<in> set (mChasers j). PostExport c"
    and vr: "variantRootKnown j"
  shows "\<exists>j'. FinishWriting env j = Inr j'"
proof -
  from st obtain s where s: "mStage j = Some s" by auto
  define root where "root = (case GetAllChildren s (Some []) of [] \<Rightarrow> None | p # ps \<Rightarrow> p)"
  define first where "first = (if IsValid root \<and> length (mRenderLayerObjs j) > 1
            \<and> \<not> IsEmpty (usdModelRootOverridePath (mArgs j))
         then WriteVariants env root j
         else Inr (case GetAllChildren s (Some []) of [] \<Rightarrow> [] | p # ps \<Rightarrow> GetName p, j))"
  from vr have "\<exists>tok j1. first = Inr (tok, j1)"
    unfolding first_def variantRootKnown_def using WriteVariants_succeeds [of j env root] by auto
  then obtain tok j1 where f: "first = Inr (tok, j1)" by blast
  then have 1: "calm j j1" unfolding first_def by (auto split: if_splits dest: WriteVariants_calm)
  let ?j2 = "authorDefaultPrim root tok (authorUnits env (restoreRenderLayer j1))"
  have 2: "calm j1 ?j2"
    by (rule calm_trans [OF restoreRenderLayer_calm calm_trans [OF authorUnits_calm authorDefaultPrim_calm]])
  let ?j3 = "(writersPostExport env (mMayaPrimWriterList ?j2) ?j2)\<lparr>mExtrasPrimsPaths := []\<rparr>"
  have 3: "calm ?j2 ?j3" by (rule calm_trans [OF writersPostExport_calm calm_extras])
  have "calm j ?j3" by (rule calm_trans [OF 1 calm_trans [OF 2 3]])
  then have "mChasers ?j3 = mChasers j" by (simp add: calm_def sameJob_def)
  with post chasersPostExport_ok [of "mChasers ?j3" env ?j3] obtain j4 where
    "chasersPostExport env (mChasers ?j3) ?j3 = Inr j4" by auto
  with f s show ?thesis
    unfolding FinishWriting_def first_def root_def by (simp add: Let_def)
qed

lemma persistAndRelease_effect:
  "trace (persistAndRelease env j) = trace j @ RestoreUpAxisAndUnits # persistEvents env j
   \<and> mStage (persistAndRelease env j) = None
   \<and> mMayaPrimWriterList (persistAndRelease env j) = []
   \<and> (mPackageName j \<noteq> [] \<longrightarrow> mFileName j \<notin> set (files (persistAndRelease env j)))"
  by (simp add: persistAndRelease_def persistEvents_def saveStage_def CreatePackage_def
        TfDeleteFile_def packagingCall_def logEvent_def Let_def)

lemma persistEvents_quiet: "\<forall>e \<in> set (RestoreUpAxisAndUnits # persistEvents env j). \<not> isFrameHook e"
  by (auto simp: persistEvents_def packagingCall_def Let_def)

lemma variantRootKnown_sameJob:
  assumes "sameJob j j'"
  shows "variantRootKnown j' = variantRootKnown j"
proof -
  from assms have e: "mRootPrimPath j' = mRootPrimPath j"
      "mMayaPrimWriterList j' = mMayaPrimWriterList j" "mRenderLayerObjs j' = mRenderLayerObjs j"
    by (simp_all add: sameJob_def)
  have "succeeded (variantRootPrimPath j') = succeeded (variantRootPrimPath j)"
    unfolding variantRootPrimPath_def e
    by (cases "mMayaPrimWriterList j") (auto simp: succeeded_def split: list.splits)
  then show ?thesis by (simp add: variantRootKnown_def e)
qed

lemma persistEvents_sameJob: "sameJob j j' \<Longrightarrow> persistEvents env j' = persistEvents env j"
  by (simp add: persistEvents_def packagingCall_def sameJob_def Let_def)






text \<open>
  C8.  When a package was requested, the stage is open, no chaser's post-export hook
  fails and the variant root, if needed, can be determined, \<open>_FinishWriting\<close> succeeds
  whatever the packaging call answers.  Its last calls are, in this order: the save of
  the temporary layer (when saving is permitted), the packaging call, the report of the
  packaging failure (when it failed), the release of the stage, the clearing of the
  writers, and the deletion of the temporary file; afterwards the stage and the writer
  list are released and the temporary file does not exist.
\<close>

theorem packaging_failure_is_not_fatal:
  assumes stage: "mStage j \<noteq> None" and pkg: "mPackageName j \<noteq> []"
    and post: "\<forall>c \<in> set (mChasers j). PostExport c"
    and vr: "variantRootKnown j"
  shows "\<exists>j' before. FinishWriting env j = Inr j'
           \<and> trace j' = trace j @ before
                @ (if PermissionToSave env then [Save (mFileName j)] else [])
                @ [packagingCall env j]
                @ (if createPackageResult env then []
                   else [Report (CouldNotCreatePackage (mPackageName j) (mFileName j))])
                @ [ReleaseStage, ClearPrimWriters, DeleteFile (mFileName j)]
           \<and> mStage j' = None \<and> mMayaPrimWriterList j' = []
           \<and> mFileName j \<notin> set (files j')"
proof -
  from FinishWriting_succeeds [OF stage post vr, of env] obtain j' where
    f: "FinishWriting env j = Inr j'" by blast
  from FinishWriting_Inr [OF f] obtain jp where
    jp: "calm j jp" "j' = persistAndRelease env jp" by blast
  from jp(1) obtain es where es: "trace jp = trace j @ es" by (auto simp: calm_def quiet_def)
  from jp(1) have sj: "sameJob j jp" by (simp add: calm_def)
  then have same: "mFileName jp = mFileName j" "mPackageName jp = mPackageName j"
    by (simp_all add: sameJob_def)
  note e = persistAndRelease_effect [of env jp]
  have "trace j' = trace j @ (es @ [RestoreUpAxisAndUnits])
                @ (if PermissionToSave env then [Save (mFileName j)] else [])
                @ [packagingCall env j]
                @ (if createPackageResult env then []
                   else [Report (CouldNotCreatePackage (mPackageName j) (mFileName j))])
                @ [ReleaseStage, ClearPrimWriters, DeleteFile (mFileName j)]"
    using e es persistEvents_sameJob [OF sj, of env] pkg
    by (simp add: jp(2) persistEvents_def)
  moreover from e pkg same have "mStage j' = None" "mMayaPrimWriterList j' = []"
      "mFileName j \<notin> set (files j')"
    by (simp_all add: jp(2))
  ultimately show ?thesis using f by blast
qed

theorem packaging_failure_is_not_fatal_witness:
  "mStage packageJob \<noteq> None \<and> mPackageName packageJob \<noteq> []
   \<and> variantRootKnown packageJob \<and> \<not> createPackageResult noPackageEnv
   \<and> (\<exists>j' before. FinishWriting noPackageEnv packageJob = Inr j'
         \<and> trace j' = trace packageJob @ before
              @ [Save ''tmp-0000.usdc'',
                 CreateNewUsdzPackage ''tmp-0000.usdc'' ''scene.usdz'' ''scene.usdc'',
                 Report (CouldNotCreatePackage ''scene.usdz'' ''tmp-0000.usdc''),
                 ReleaseStage, ClearPrimWriters, DeleteFile ''tmp-0000.usdc'']
         \<and> mStage j' = None \<and> mMayaPrimWriterList j' = []
         \<and> ''tmp-0000.usdc'' \<notin> set (files j'))"
proof -
  have 1: "mStage packageJob \<noteq> None" and 2: "mPackageName packageJob \<noteq> []"
    and 3: "\<forall>c \<in> set (mChasers packageJob). PostExport c"
    and 4: "variantRootKnown packageJob"
    by (simp_all add: packageJob_def plainJob_def variantRootKnown_def)
  have 5: "\<not> createPackageResult noPackageEnv" "PermissionToSave noPackageEnv"
    by (simp_all add: noPackageEnv_def plainEnv_def)
  have 6: "mFileName packageJob = ''tmp-0000.usdc''" "mPackageName packageJob = ''scene.usdz''"
    by (simp_all add: packageJob_def)
  have 7: "packagingCall noPackageEnv packageJob
             = CreateNewUsdzPackage ''tmp-0000.usdc'' ''scene.usdz'' ''scene.usdc''"
    by (simp add: packagingCall_def packageJob_def noPackageEnv_def example_defs appleArKit_def)
  from packaging_failure_is_not_fatal [OF 1 2 3 4, of noPackageEnv] 5 6 7
  have "\<exists>j' before. FinishWriting noPackageEnv packageJob = Inr j'
         \<and> trace j' = trace packageJob @ before
              @ [Save ''tmp-0000.usdc'',
                 CreateNewUsdzPackage ''tmp-0000.usdc'' ''scene.usdz'' ''scene.usdc'',
                 Report (CouldNotCreatePackage ''scene.usdz'' ''tmp-0000.usdc''),
                 ReleaseStage, ClearPrimWriters, DeleteFile ''tmp-0000.usdc'']
         \<and> mStage j' = None \<and> mMayaPrimWriterList j' = []
         \<and> ''tmp-0000.usdc'' \<notin> set (files j')"
    by simp
  with 1 2 4 5 show ?thesis by blast
qed


section \<open>Variants: properties\<close>

lemma map_of_map_key:
  "map_of (map (\<lambda>(k, d). if k = p then (k, f d) else (k, d)) xs) q
     = (if q = p then map_option f (map_of xs q) else map_of xs q)"
  by (induction xs) auto

lemma primAt_updatePrim:
  "primAt (updatePrim st p f) q = (if q = p then map_option f (primAt st q) else primAt st q)"
  by (auto simp: primAt_def updatePrim_def map_of_map_key split: option.splits list.splits)

lemma primAt_SetActive [simp]: "primAt (SetActive st p b) q = primAt st q"
  by (simp add: primAt_def SetActive_def split: option.splits list.splits)

lemma primAt_add:
  "primAt (st\<lparr>prims := prims st @ [(p, d)]\<rparr>) q
     = (case primAt st q of Some v \<Rightarrow> Some v
        | None \<Rightarrow> if q = p \<and> removable q then Some d else None)"
  by (auto simp: primAt_def removable_def map_add_def split: option.splits list.splits)

lemma definePrims_keeps:
  "primAt s q \<noteq> None \<Longrightarrow>
     primAt (foldl (\<lambda>s p. if primAt s p = None then s\<lparr>prims := prims s @ [(p, newPrim)]\<rparr> else s)
               s ps) q \<noteq> None"
proof (induction ps arbitrary: s)
  case Nil
  then show ?case by simp
next
  case (Cons p ps)
  have "primAt (if primAt s p = None then s\<lparr>prims := prims s @ [(p, newPrim)]\<rparr> else s) q \<noteq> None"
    using Cons.prems by (auto simp: primAt_add split: option.splits)
  from Cons.IH [OF this] show ?case by simp
qed

lemma definePrims_defines:
  "q \<in> set ps \<Longrightarrow> removable q \<Longrightarrow>
     primAt (foldl (\<lambda>s p. if primAt s p = None then s\<lparr>prims := prims s @ [(p, newPrim)]\<rparr> else s)
               s ps) q \<noteq> None"
proof (induction ps arbitrary: s)
  case Nil
  then show ?case by simp
next
  case (Cons p ps)
  show ?case
  proof (cases "q = p")
    case True
    have "primAt (if primAt s p = None then s\<lparr>prims := prims s @ [(p, newPrim)]\<rparr> else s) q \<noteq> None"
      using True Cons.prems(2) by (auto simp: primAt_add split: option.splits)
    from definePrims_keeps [OF this] show ?thesis by simp
  next
    case False
    with Cons.prems have "q \<in> set ps" by simp
    from Cons.IH [OF this Cons.prems(2)] show ?thesis by simp
  qed
qed

lemma DefinePrim_defines:
  assumes "removable vroot"
  shows "primAt (DefinePrim st vroot) vroot \<noteq> None"
proof -
  from assms obtain x xs where v: "vroot = Some (x # xs)"
    by (auto simp: removable_def split: option.splits list.splits)
  have m: "Suc (length xs) \<in> set [1 ..< Suc (length (x # xs))]" by simp
  have "(\<lambda>i. Some (take i (x # xs))) (Suc (length xs))
          \<in> (\<lambda>i. Some (take i (x # xs))) ` set [1 ..< Suc (length (x # xs))]"
    using m by (rule imageI)
  then have "vroot \<in> set (GetPrefixes vroot)" by (simp add: v GetPrefixes_def)
  from definePrims_defines [OF this assms] show ?thesis by (simp add: DefinePrim_def)
qed

lemma GetVariantSet_modify:
  "GetVariantSet (modifyVariantSet st p V f) p V = map_option f (GetVariantSet st p V)"
  by (auto simp: GetVariantSet_def modifyVariantSet_def primAt_updatePrim map_of_map_key
        split: option.splits)

lemma primAt_modify_None:
  "primAt (modifyVariantSet st p V f) q = None \<longleftrightarrow> primAt st q = None"
  by (simp add: modifyVariantSet_def primAt_updatePrim)

lemma GetVariantSet_AddVariantSet:
  "primAt st p \<noteq> None \<Longrightarrow>
     GetVariantSet (AddVariantSet st p V) p V
       = Some (case GetVariantSet st p V of None \<Rightarrow> \<lparr>variants = [], selection = []\<rparr> | Some vs \<Rightarrow> vs)"
  by (auto simp: GetVariantSet_def AddVariantSet_def primAt_updatePrim map_add_def
        split: option.splits)

lemma primAt_AddVariantSet_None:
  "primAt (AddVariantSet st p V) q = None \<longleftrightarrow> primAt st q = None"
  by (simp add: AddVariantSet_def primAt_updatePrim)

lemma authorVariant_effect:
  assumes "primAt st vroot \<noteq> None"
  shows "\<exists>vs'. GetVariantSet (authorVariant env vroot name ap st) vroot ''modelingVariant'' = Some vs'
           \<and> selection vs' = name \<and> name \<in> fst ` set (variants vs')
           \<and> (\<forall>vs. GetVariantSet st vroot ''modelingVariant'' = Some vs \<longrightarrow>
                  fst ` set (variants vs) \<subseteq> fst ` set (variants vs'))
           \<and> primAt (authorVariant env vroot name ap st) vroot \<noteq> None"
proof -
  define vs0 where "vs0 = (case GetVariantSet st vroot ''modelingVariant'' of
                            None \<Rightarrow> \<lparr>variants = [], selection = []\<rparr> | Some vs \<Rightarrow> vs)"
  have old: "fst ` set (variants vs) \<subseteq> fst ` set (variants vs0)"
    if "GetVariantSet st vroot ''modelingVariant'' = Some vs" for vs
    using that by (simp add: vs0_def)
  have fstf: "fst (case x of (n, ds) \<Rightarrow> if n = name then (n, ds @ extra) else (n, ds)) = fst x"
    for x :: "string \<times> SdfPath list" and extra
    by (cases x) simp
  have names: "fst ` (\<lambda>x. case x of (n, ds) \<Rightarrow> if n = name then (n, ds @ extra) else (n, ds)) ` S
                 = fst ` S" for extra :: "SdfPath list" and S
    by (simp add: image_image fstf)
  show ?thesis
    unfolding authorVariant_def Let_def deactivateInVariant_def SetVariantSelection_def
      AddVariant_def
    using assms old
    by (auto simp: GetVariantSet_modify GetVariantSet_AddVariantSet primAt_modify_None
          primAt_AddVariantSet_None vs0_def [symmetric] names)
qed

lemma layerActivePaths_cong:
  "mDagPathToUsdPathMap j' = mDagPathToUsdPathMap j \<Longrightarrow>
     layerActivePaths env j' vroot ms = layerActivePaths env j vroot ms"
  by (induction ms) (auto split: option.splits)

lemma renderLayersLoop_default:
  "renderLayersLoop env vroot layers (d, j) = (d', j') \<Longrightarrow>
     d' = (if defaultRenderLayer env \<in> set layers then layerName (defaultRenderLayer env) else d)"
proof (induction layers arbitrary: d j)
  case Nil
  then show ?case by simp
next
  case (Cons l layers)
  from Cons.prems obtain j2 where
    "renderLayersLoop env vroot layers
       (if l = defaultRenderLayer env then layerName l else d, j2) = (d', j')"
    by (simp add: Let_def)
  from Cons.IH [OF this] show ?case by auto
qed

lemma renderLayersLoop_stage:
  assumes "renderLayersLoop env vroot layers (d, j) = (d', j')" "mStage j = Some st"
    "primAt st vroot \<noteq> None"
  shows "\<exists>st'. mStage j' = Some st' \<and> primAt st' vroot \<noteq> None
           \<and> (\<forall>n. hasVariant st vroot n \<longrightarrow> hasVariant st' vroot n)
           \<and> (\<forall>l \<in> set layers. layerActivePaths env j vroot (listMembers l) \<noteq> [] \<longrightarrow>
                  hasVariant st' vroot (layerName l))"
  using assms
proof (induction layers arbitrary: d j st)
  case Nil
  then show ?case by simp
next
  case (Cons l layers)
  let ?j1 = "setCurrentRenderLayer (layerName l) j"
  let ?ap = "layerActivePaths env j vroot (listMembers l)"
  have ap: "layerActivePaths env ?j1 vroot (listMembers l) = ?ap"
    by (rule layerActivePaths_cong) (simp add: setCurrentRenderLayer_def)
  define st2 where "st2 = (if ?ap \<noteq> [] then authorVariant env vroot (layerName l) ?ap st else st)"
  define j2 where "j2 = (if ?ap \<noteq> [] then ?j1\<lparr>mStage := map_option
                 (authorVariant env vroot (layerName l) ?ap) (mStage ?j1)\<rparr> else ?j1)"
  have s2: "mStage j2 = Some st2" and m2: "mDagPathToUsdPathMap j2 = mDagPathToUsdPathMap j"
    using Cons.prems(2) by (auto simp: j2_def st2_def setCurrentRenderLayer_def)
  note a = authorVariant_effect [OF Cons.prems(3), of env "layerName l" ?ap]
  have p2: "primAt st2 vroot \<noteq> None" using a Cons.prems(3) by (auto simp: st2_def)
  from a obtain vs' where
    vs': "GetVariantSet (authorVariant env vroot (layerName l) ?ap st) vroot ''modelingVariant''
            = Some vs'"
      "layerName l \<in> fst ` set (variants vs')"
      "\<forall>vs. GetVariantSet st vroot ''modelingVariant'' = Some vs \<longrightarrow>
             fst ` set (variants vs) \<subseteq> fst ` set (variants vs')"
    by blast
  have mono: "hasVariant st vroot n \<longrightarrow> hasVariant st2 vroot n" for n
  proof (cases "?ap \<noteq> []")
    case True
    show ?thesis
    proof
      assume "hasVariant st vroot n"
      then obtain vs where "GetVariantSet st vroot ''modelingVariant'' = Some vs"
        "n \<in> fst ` set (variants vs)"
        unfolding hasVariant_def by blast
      with vs'(3) have "n \<in> fst ` set (variants vs')" by blast
      with vs'(1) True show "hasVariant st2 vroot n" by (simp add: st2_def hasVariant_def)
    qed
  next
    case False
    then show ?thesis by (simp add: st2_def)
  qed
  have here: "?ap \<noteq> [] \<longrightarrow> hasVariant st2 vroot (layerName l)"
    using vs'(1,2) by (simp add: st2_def hasVariant_def)
  from Cons.prems(1) have "renderLayersLoop env vroot layers
       (if l = defaultRenderLayer env then layerName l else d, j2) = (d', j')"
    by (simp add: Let_def ap j2_def cong: if_cong)
  from Cons.IH [OF this s2 p2] obtain st' where
    st': "mStage j' = Some st'" "primAt st' vroot \<noteq> None"
      "\<forall>n. hasVariant st2 vroot n \<longrightarrow> hasVariant st' vroot n"
      "\<forall>l \<in> set layers. layerActivePaths env j2 vroot (listMembers l) \<noteq> [] \<longrightarrow>
                  hasVariant st' vroot (layerName l)"
    by blast
  from st'(4) have rest: "\<forall>l \<in> set layers. layerActivePaths env j vroot (listMembers l) \<noteq> [] \<longrightarrow>
                  hasVariant st' vroot (layerName l)"
    by (simp add: layerActivePaths_cong [OF m2])
  from st' mono here rest show ?case by auto
qed

lemma variantRootPrimPath_layers:
  "variantRootPrimPath j = Inr v \<Longrightarrow> variantRootPrimPath (j\<lparr>mRenderLayerObjs := ls\<rparr>) = Inr v"
  by (auto simp: variantRootPrimPath_def split: if_splits list.splits)

lemma GetPrefixes_removable: "x \<in> set (GetPrefixes p) \<Longrightarrow> removable x"
  by (cases p) (auto simp: GetPrefixes_def removable_def split: list.splits)

lemma variantRootPrimPath_removable:
  assumes "variantRootPrimPath j = Inr vroot" "vroot \<noteq> Some []"
  shows "removable vroot"
proof (cases "IsEmpty (mRootPrimPath j)")
  case True
  with assms(1) have "vroot \<in> set (GetPrefixes (SdfPath_of_string
                     (replaceChar (CHR '':'') (CHR ''_'')
                        (replaceChar (CHR ''|'') (CHR ''/'')
                           (fullPathName (GetDagPath (hd (mMayaPrimWriterList j))))))))"
    by (auto simp: variantRootPrimPath_def split: list.splits)
  then show ?thesis by (rule GetPrefixes_removable)
next
  case False
  with assms show ?thesis
    by (cases vroot) (auto simp: variantRootPrimPath_def IsEmpty_def removable_def split: list.splits)
qed

text \<open>
  C5.  Default variant selection.  Let the job have a stage, a variant root other than the
  pseudo-root, and a list of render layers that contains Maya's default render layer, and
  let that layer have at least one exported member.  Then, in whatever order the render
  layers are processed (\<open>layers\<close> is any list with the same elements), the variant
  builder succeeds, the \<open>modelingVariant\<close> variant set exists on the variant root, it has
  a variant named after the default render layer, and that variant is the selected one:
  the selection made while each variant is authored is overridden by the one made after
  the loop.
\<close>

theorem default_variant_selected:
  assumes stage: "mStage j = Some st"
    and root: "variantRootPrimPath j = Inr vroot" and nonroot: "vroot \<noteq> Some []"
    and marked: "defaultRenderLayer env \<in> set (mRenderLayerObjs j)"
    and members: "layerActivePaths env j vroot (listMembers (defaultRenderLayer env)) \<noteq> []"
    and order: "set layers = set (mRenderLayerObjs j)"
  shows "\<exists>tok j' st' vs. WriteVariants env usdRootPrim (j\<lparr>mRenderLayerObjs := layers\<rparr>)
                            = Inr (tok, j')
           \<and> mStage j' = Some st'
           \<and> GetVariantSet st' vroot ''modelingVariant'' = Some vs
           \<and> selection vs = layerName (defaultRenderLayer env)
           \<and> layerName (defaultRenderLayer env) \<in> fst ` set (variants vs)"
proof -
  let ?j = "j\<lparr>mRenderLayerObjs := layers\<rparr>"
  from root nonroot have rv: "removable vroot" by (rule variantRootPrimPath_removable)
  define st1 where "st1 = SetActive (SetActive (AddInternalReference (DefinePrim st vroot)
                             vroot usdRootPrim) vroot True) usdRootPrim False"
  define j1 where "j1 = ?j\<lparr>mStage := Some st1\<rparr>"
  have p1: "primAt st1 vroot \<noteq> None"
    using DefinePrim_defines [OF rv, of st]
    by (simp add: st1_def AddInternalReference_def primAt_updatePrim)
  obtain d j2 where l: "renderLayersLoop env vroot layers ([], j1) = (d, j2)"
    by (cases "renderLayersLoop env vroot layers ([], j1)")
  have s1: "mStage j1 = Some st1" by (simp add: j1_def)
  from renderLayersLoop_default [OF l] marked order
  have d: "d = layerName (defaultRenderLayer env)" by simp
  have "layerActivePaths env j1 vroot (listMembers (defaultRenderLayer env))
          = layerActivePaths env j vroot (listMembers (defaultRenderLayer env))"
    by (rule layerActivePaths_cong) (simp add: j1_def)
  with members marked order renderLayersLoop_stage [OF l s1 p1] obtain st2 where
    st2: "mStage j2 = Some st2" "hasVariant st2 vroot (layerName (defaultRenderLayer env))"
    by auto
  then obtain vs2 where vs2: "GetVariantSet st2 vroot ''modelingVariant'' = Some vs2"
      "layerName (defaultRenderLayer env) \<in> fst ` set (variants vs2)"
    by (auto simp: hasVariant_def)
  let ?st' = "selectDefaultVariant vroot d st2"
  let ?j' = "j2\<lparr>mStage := map_option (selectDefaultVariant vroot d) (mStage j2)\<rparr>"
  have w: "WriteVariants env usdRootPrim ?j = Inr (GetName vroot, ?j')"
    using variantRootPrimPath_layers [OF root, of layers] l stage
    by (simp add: WriteVariants_def Let_def j1_def st1_def)
  have g: "GetVariantSet ?st' vroot ''modelingVariant'' = Some (vs2\<lparr>selection := d\<rparr>)"
    using vs2(1) by (simp add: selectDefaultVariant_def SetVariantSelection_def GetVariantSet_modify)
  show ?thesis
  proof (intro exI conjI)
    show "WriteVariants env usdRootPrim ?j = Inr (GetName vroot, ?j')" by (rule w)
    show "mStage ?j' = Some ?st'" using st2(1) by simp
    show "GetVariantSet ?st' vroot ''modelingVariant'' = Some (vs2\<lparr>selection := d\<rparr>)"
      by (rule g)
    show "selection (vs2\<lparr>selection := d\<rparr>) = layerName (defaultRenderLayer env)"
      using d by simp
    show "layerName (defaultRenderLayer env) \<in> fst ` set (variants (vs2\<lparr>selection := d\<rparr>))"
      using vs2(2) by simp
  qed
qed

lemmas variants_defs = variantsJob_def variantsEnv_def layerA_def layerB_def layerC_def
  cubeWriter_def plainJob_def plainEnv_def variantRootPrimPath_def IsEmpty_def GetPrefixes_def
  SdfPath_of_string_def replaceChar_def fullPathName_def ReplacePrefix_def

theorem default_variant_selected_witness:
  "variantRootPrimPath variantsJob = Inr (Some [''cube''])
   \<and> defaultRenderLayer variantsEnv = layerB
   \<and> layerB \<in> set (mRenderLayerObjs variantsJob)
   \<and> layerActivePaths variantsEnv variantsJob (Some [''cube'']) (listMembers layerB) \<noteq> []
   \<and> (\<exists>tok j' st' vs.
         WriteVariants variantsEnv (Some [''_BaseModel_''])
           (variantsJob\<lparr>mRenderLayerObjs := [layerA, layerB, layerC]\<rparr>) = Inr (tok, j')
         \<and> mStage j' = Some st'
         \<and> GetVariantSet st' (Some [''cube'']) ''modelingVariant'' = Some vs
         \<and> selection vs = ''defaultRenderLayer''
         \<and> ''defaultRenderLayer'' \<in> fst ` set (variants vs))
   \<and> (\<exists>tok j' st' vs.
         WriteVariants variantsEnv (Some [''_BaseModel_''])
           (variantsJob\<lparr>mRenderLayerObjs := [layerC, layerB, layerA]\<rparr>) = Inr (tok, j')
         \<and> mStage j' = Some st'
         \<and> GetVariantSet st' (Some [''cube'']) ''modelingVariant'' = Some vs
         \<and> selection vs = ''defaultRenderLayer''
         \<and> ''defaultRenderLayer'' \<in> fst ` set (variants vs))"
proof -
  obtain st where 1: "mStage variantsJob = Some st" by (simp add: variantsJob_def)
  have 2: "variantRootPrimPath variantsJob = Inr (Some [''cube''])"
    by (simp add: variants_defs)
  have 3: "Some [''cube''] \<noteq> Some ([] :: string list)" by simp
  have d: "defaultRenderLayer variantsEnv = layerB" by (simp add: variantsEnv_def)
  have 4: "defaultRenderLayer variantsEnv \<in> set (mRenderLayerObjs variantsJob)"
    by (simp add: variantsEnv_def variantsJob_def)
  have 5: "layerActivePaths variantsEnv variantsJob (Some [''cube''])
             (listMembers (defaultRenderLayer variantsEnv)) \<noteq> []"
    by (simp add: variants_defs)
  have 6: "set [layerA, layerB, layerC] = set (mRenderLayerObjs variantsJob)"
    by (simp add: variantsJob_def)
  have 7: "set [layerC, layerB, layerA] = set (mRenderLayerObjs variantsJob)"
    by (auto simp: variantsJob_def)
  have n: "layerName layerB = ''defaultRenderLayer''" by (simp add: layerB_def)
  from default_variant_selected [OF 1 2 3 4 5 6, of "Some [''_BaseModel_'']"]
    default_variant_selected [OF 1 2 3 4 5 7, of "Some [''_BaseModel_'']"]
    2 4 5 d n
  show ?thesis by simp
qed

end
